theory Spec2Isabelle
  imports Complex_Main "HOL-Library.Sublist" "HOL-Library.Multiset" "HOL-Library.Log_Nat"
begin

section \<open>Library primitives used by the two scripts\<close>

text \<open>
  Both scripts (\<^verbatim>\<open>s3_concurrent_downloader.py\<close>, \<^verbatim>\<open>s3_concurrent_uploader.py\<close>) are
  Python. A Python \<^verbatim>\<open>str\<close> is modelled as a \<^typ>\<open>string\<close> (characters with code points
  below 256), a Python \<^verbatim>\<open>int\<close> as \<^typ>\<open>int\<close>, a Python \<^verbatim>\<open>float\<close> as the rational number
  that the double stands for. A time in seconds, which the environment supplies, is a
  \<^typ>\<open>rat\<close> as well.
\<close>

subsection \<open>String methods\<close>

text \<open>\<^verbatim>\<open>str.isspace\<close> on one character: the white space characters below code point 256.\<close>

definition isspace :: "char \<Rightarrow> bool" where
  "isspace c = (c \<in> set [CHR 0x09, CHR 0x0A, CHR 0x0B, CHR 0x0C, CHR 0x0D,
                           CHR 0x1C, CHR 0x1D, CHR 0x1E, CHR 0x1F, CHR 0x20,
                           CHR 0x85, CHR 0xA0])"

text \<open>\<^verbatim>\<open>s.strip()\<close>: leading and trailing white space removed.\<close>

definition strip :: "string \<Rightarrow> string" where
  "strip s = rev (dropWhile isspace (rev (dropWhile isspace s)))"

text \<open>\<^verbatim>\<open>s.rstrip("/")\<close>: every trailing slash removed.\<close>

definition rstrip_slash :: "string \<Rightarrow> string" where
  "rstrip_slash s = rev (dropWhile (\<lambda>c. c = CHR ''/'') (rev s))"

text \<open>
  The pieces of a string between the characters satisfying \<open>P\<close>; like \<^verbatim>\<open>s.split(sep)\<close>
  it always returns at least one piece, and pieces may be empty.
\<close>

fun split_where :: "(char \<Rightarrow> bool) \<Rightarrow> string \<Rightarrow> string list" where
  "split_where P [] = [[]]"
| "split_where P (c # cs) =
     (if P c then [] # split_where P cs
      else (case split_where P cs of
              [] \<Rightarrow> [[c]]
            | w # ws \<Rightarrow> (c # w) # ws))"

text \<open>\<^verbatim>\<open>s.split(sep)\<close> for a separator of one character.\<close>

definition split_on :: "char \<Rightarrow> string \<Rightarrow> string list" where
  "split_on sep s = split_where (\<lambda>c. c = sep) s"

text \<open>\<^verbatim>\<open>s.split()\<close>: the non-empty pieces between white space characters.\<close>

definition split_ws :: "string \<Rightarrow> string list" where
  "split_ws s = filter (\<lambda>w. w \<noteq> []) (split_where isspace s)"

text \<open>\<^verbatim>\<open>sep.join(xs)\<close>.\<close>

fun join :: "string \<Rightarrow> string list \<Rightarrow> string" where
  "join sep [] = []"
| "join sep [x] = x"
| "join sep (x # y # ys) = x @ sep @ join sep (y # ys)"

text \<open>Truth value of an optional string (\<^verbatim>\<open>None\<close> and \<^verbatim>\<open>""\<close> are false).\<close>

definition truthy :: "string option \<Rightarrow> bool" where
  "truthy s = (case s of None \<Rightarrow> False | Some x \<Rightarrow> x \<noteq> [])"

subsection \<open>\<^verbatim>\<open>pathlib\<close> paths (POSIX flavour)\<close>

text \<open>
  A \<^verbatim>\<open>pathlib.Path\<close> is its root (\<^verbatim>\<open>""\<close>, \<^verbatim>\<open>"/"\<close> or \<^verbatim>\<open>"//"\<close>) and its components.
  Parsing drops empty components and \<^verbatim>\<open>"."\<close> components; \<^verbatim>\<open>".."\<close> is kept.
\<close>

record pure_path =
  anchor :: string
  parts :: "string list"

definition splitroot :: "string \<Rightarrow> string \<times> string" where
  "splitroot s =
     (case s of
        [] \<Rightarrow> ([], [])
      | c # cs \<Rightarrow>
          if c = CHR ''/'' then
            (let stripped = dropWhile (\<lambda>c. c = CHR ''/'') s
             in if length s - length stripped = 2 then (''//'', stripped)
                else (''/'', stripped))
          else ([], s))"

definition Path :: "string \<Rightarrow> pure_path" where
  "Path s =
     (case splitroot s of
        (rt, rel) \<Rightarrow>
          \<lparr>anchor = rt,
           parts = filter (\<lambda>x. x \<noteq> [] \<and> x \<noteq> ''.'') (split_on CHR ''/'' rel)\<rparr>)"

text \<open>\<^verbatim>\<open>p.name\<close>: the final component, \<^verbatim>\<open>""\<close> when there is none.\<close>

definition name :: "pure_path \<Rightarrow> string" where
  "name p = (case rev (parts p) of [] \<Rightarrow> [] | x # _ \<Rightarrow> x)"

text \<open>\<^verbatim>\<open>str(p)\<close>.\<close>

definition str_path :: "pure_path \<Rightarrow> string" where
  "str_path p =
     (if anchor p = [] \<and> parts p = [] then ''.''
      else anchor p @ join ''/'' (parts p))"

text \<open>\<^verbatim>\<open>p / s\<close>: an absolute right operand replaces the left one.\<close>

definition truediv :: "pure_path \<Rightarrow> string \<Rightarrow> pure_path" where
  "truediv p s =
     (let q = Path s
      in if anchor q \<noteq> [] then q
         else \<lparr>anchor = anchor p, parts = parts p @ parts q\<rparr>)"

subsection \<open>Floating-point arithmetic\<close>

text \<open>
  A Python \<^verbatim>\<open>float\<close> is an IEEE 754 double: a significand of 53 bits and a power of two.
  \<open>to_double\<close> rounds a rational number to the nearest double, a tie to the double with
  the even significand; for a positive \<open>x\<close>, \<open>exponent x\<close> is the integer \<open>e\<close> with
  \<open>pow2 e \<le> x < pow2 (e + 1)\<close>. The range of the exponent of a double is not limited
  here, which matters only for numbers of more than a thousand bits.
\<close>

definition pow2 :: "int \<Rightarrow> rat" where
  "pow2 n = (if 0 \<le> n then 2 ^ nat n else 1 / 2 ^ nat (- n))"

definition round_half_even :: "rat \<Rightarrow> int" where
  "round_half_even x =
     (let f = \<lfloor>x\<rfloor>; r = x - of_int f
      in if r < 1 / 2 then f
         else if 1 / 2 < r then f + 1
         else if even f then f else f + 1)"

definition exponent :: "rat \<Rightarrow> int" where
  "exponent x =
     (if 1 \<le> x then bitlen \<lfloor>x\<rfloor> - 1
      else (let k = bitlen \<lfloor>1 / x\<rfloor>
            in if x = pow2 (1 - k) then 1 - k else - k))"

definition to_double :: "rat \<Rightarrow> rat" where
  "to_double x =
     (if x = 0 then 0
      else (let ulp = pow2 (exponent \<bar>x\<bar> - 52)
            in sgn x * of_int (round_half_even (\<bar>x\<bar> / ulp)) * ulp))"

text \<open>
  \<^verbatim>\<open>a / b\<close> on two \<^verbatim>\<open>int\<close>s with \<open>b \<noteq> 0\<close> is the double nearest to the quotient; \<^verbatim>\<open>x * y\<close>
  on two \<^verbatim>\<open>float\<close>s is the double nearest to the product.
\<close>

definition true_divide :: "int \<Rightarrow> int \<Rightarrow> rat" where
  "true_divide a b = to_double (of_int a / of_int b)"

definition float_mul :: "rat \<Rightarrow> rat \<Rightarrow> rat" where
  "float_mul x y = to_double (x * y)"

text \<open>
  The number that the format \<^verbatim>\<open>5.1f\<close> writes for a \<^verbatim>\<open>float\<close>: the nearest decimal number
  with one digit after the point, a tie to the even digit. (The padding to five
  characters is not modelled.)
\<close>

definition format_1f :: "rat \<Rightarrow> rat" where
  "format_1f x = of_int (round_half_even (x * 10)) / 10"

subsection \<open>External processes\<close>

text \<open>
  \<^verbatim>\<open>subprocess.run(cmd, capture_output=True, text=True, timeout=t, check=False)\<close>.
  What the started process does is given by the environment: it exits after some seconds
  with a return code and its output, it never exits by itself, or it cannot be started
  (\<^verbatim>\<open>OSError\<close> and the like, with the text of the exception). A process still running
  after \<open>t\<close> seconds is killed and \<^verbatim>\<open>TimeoutExpired\<close> is raised.
\<close>

record completed =
  returncode :: int
  stdout :: string
  stderr :: string

datatype proc = Exits rat completed | Hangs | SpawnFails string

text \<open>Instances of Python's \<^verbatim>\<open>Exception\<close> class; \<open>Exception m\<close> has \<^verbatim>\<open>str(e) = m\<close>.\<close>

datatype exception = TimeoutExpired | Exception string

text \<open>What can leave a function by raising: an \<^verbatim>\<open>Exception\<close>, or the user's interrupt.\<close>

datatype raised = Raised exception | KeyboardInterrupt

definition subprocess_run :: "rat \<Rightarrow> proc \<Rightarrow> exception + completed" where
  "subprocess_run timeout p =
     (case p of
        Exits d r \<Rightarrow> if timeout < d then Inl TimeoutExpired else Inr r
      | Hangs \<Rightarrow> Inl TimeoutExpired
      | SpawnFails m \<Rightarrow> Inl (Exception m))"

section \<open>Shared data of the two directions\<close>

text \<open>
  The attributes that \<^verbatim>\<open>S3Downloader\<close> and \<^verbatim>\<open>S3Uploader\<close> have in common. The lock is
  not a field: a block under \<^verbatim>\<open>with self.lock\<close> is one atomic step of the model. Two
  fields are not attributes of the classes but records of effects: \<open>spawned\<close> holds the
  external commands started so far, as a multiset, since the order in which the threads
  of the pool start their commands is not fixed; \<open>printed\<close> is the list of the numbers
  shown as percentage by the progress lines written so far.
\<close>

record transfer_state =
  bucket_name :: string
  max_workers :: int
  aws_profile :: "string option"
  failed_count :: int
  total_files :: int
  spawned :: "string list multiset"
  printed :: "rat list"

text \<open>The tuple returned for one item: \<^verbatim>\<open>(success, item, error_message)\<close>.\<close>

type_synonym outcome = "bool \<times> string \<times> string option"

text \<open>
  The dictionary returned by a run. The key \<^verbatim>\<open>"total_time"\<close> is absent from the
  dictionary returned for an empty work list: \<open>total_time\<close> is \<open>None\<close> there. An entry
  of \<open>errors\<close> is the pair of \<^verbatim>\<open>"file"\<close> and \<^verbatim>\<open>"error"\<close>.
\<close>

record result =
  success :: int
  failed :: int
  errors :: "(string \<times> string option) list"
  total_time :: "rat option"

text \<open>
  The environment of a run, common part: the process behind \<^verbatim>\<open>aws --version\<close>, the order
  in which the submitted tasks (numbered from 0 in submission order) complete, whether
  the user interrupts the main thread while it waits for completions, and the two
  readings of \<^verbatim>\<open>time.time()\<close>.
\<close>

record world =
  version_process :: proc
  completion_order :: "nat list"
  interrupted :: bool
  start_time :: rat
  end_time :: rat

text \<open>A completion order of \<open>n\<close> tasks names each task once.\<close>

definition valid_order :: "nat list \<Rightarrow> nat \<Rightarrow> bool" where
  "valid_order ord n = (distinct ord \<and> set ord = {..<n})"

text \<open>The tasks in the order they complete, each with its own environment.\<close>

definition scheduled :: "string list \<Rightarrow> (nat \<Rightarrow> 'e) \<Rightarrow> nat list \<Rightarrow> (string \<times> 'e) list" where
  "scheduled items env ord = map (\<lambda>i. (items ! i, env i)) ord"

text \<open>
  The loop over \<^verbatim>\<open>as_completed\<close>: \<^verbatim>\<open>future.result()\<close> raises again what the task
  raised; a failed item is appended to \<^verbatim>\<open>errors\<close>.
\<close>

fun collect :: "(exception + outcome) list \<Rightarrow> (string \<times> string option) list
    \<Rightarrow> exception + (string \<times> string option) list" where
  "collect [] errs = Inr errs"
| "collect (Inl e # rs) errs = Inl e"
| "collect (Inr (ok, item, error_msg) # rs) errs =
     collect rs (if \<not> ok then errs @ [(item, error_msg)] else errs)"

text \<open>\<^verbatim>\<open>_check_aws_cli\<close>: the exit code of \<^verbatim>\<open>sys.exit\<close>, if it is reached.\<close>

definition check_aws_cli :: "proc \<Rightarrow> int option" where
  "check_aws_cli p =
     (case subprocess_run 10 p of
        Inl e \<Rightarrow> Some 1
      | Inr r \<Rightarrow> if returncode r \<noteq> 0 then Some 1 else None)"

section \<open>The downloader\<close>

record S3Downloader = transfer_state +
  output_dir :: pure_path
  downloaded_count :: int

text \<open>
  The environment of a download: the process behind \<^verbatim>\<open>aws s3 ls\<close>, the matcher
  \<^verbatim>\<open>fnmatch.fnmatch(name, pattern)\<close>, whether creating the output directory fails, and
  for the task with submission index \<open>i\<close> whether \<^verbatim>\<open>mkdir\<close> of the target's parent fails
  (with the text of the exception) and the process behind its \<^verbatim>\<open>aws s3 cp\<close>.
\<close>

record download_task =
  mkdir_error :: "string option"
  cp_process :: proc

record download_world = world +
  ls_process :: proc
  fnmatch :: "string \<Rightarrow> string \<Rightarrow> bool"
  outdir_error :: "string option"
  download_task :: "nat \<Rightarrow> download_task"

definition build_aws_list_command :: "S3Downloader \<Rightarrow> string \<Rightarrow> string list" where
  "build_aws_list_command self s3_prefix =
     (let s3_path = (if s3_prefix \<noteq> []
                     then ''s3://'' @ bucket_name self @ ''/'' @ rstrip_slash s3_prefix @ ''/''
                     else ''s3://'' @ bucket_name self @ ''/'');
          cmd = [''aws'', ''s3'', ''ls'', s3_path, ''--recursive'']
      in case aws_profile self of
           None \<Rightarrow> cmd
         | Some p \<Rightarrow> if p \<noteq> [] then cmd @ [''--profile'', p] else cmd)"

definition build_aws_download_command :: "S3Downloader \<Rightarrow> string \<Rightarrow> pure_path \<Rightarrow> string list" where
  "build_aws_download_command self s3_key local_file =
     (let s3_path = ''s3://'' @ bucket_name self @ ''/'' @ s3_key;
          cmd = [''aws'', ''s3'', ''cp'', s3_path, str_path local_file]
      in case aws_profile self of
           None \<Rightarrow> cmd
         | Some p \<Rightarrow> if p \<noteq> [] then cmd @ [''--profile'', p] else cmd)"

text \<open>The loop of \<^verbatim>\<open>_list_s3_files\<close> over the lines of the listing.\<close>

fun parse_listing :: "(string \<Rightarrow> string \<Rightarrow> bool) \<Rightarrow> string option \<Rightarrow> string list
    \<Rightarrow> string list \<Rightarrow> string list" where
  "parse_listing fm pattern [] s3_files = s3_files"
| "parse_listing fm pattern (line # lines) s3_files =
     (if strip line \<noteq> [] then
        (let parts = split_ws line
         in if 4 \<le> length parts then
              (let file_key = join '' '' (drop 3 parts)
               in case pattern of
                    None \<Rightarrow> parse_listing fm pattern lines (s3_files @ [file_key])
                  | Some pat \<Rightarrow>
                      if pat \<noteq> [] \<and> \<not> fm (name (Path file_key)) pat
                      then parse_listing fm pattern lines s3_files
                      else parse_listing fm pattern lines (s3_files @ [file_key]))
            else parse_listing fm pattern lines s3_files)
      else parse_listing fm pattern lines s3_files)"

text \<open>\<^verbatim>\<open>_list_s3_files\<close>: any exception and any non-zero return code give the empty list.\<close>

definition list_s3_files :: "S3Downloader \<Rightarrow> string \<Rightarrow> string option \<Rightarrow> download_world
    \<Rightarrow> string list \<times> S3Downloader" where
  "list_s3_files self s3_prefix pattern w =
     (let cmd = build_aws_list_command self s3_prefix;
          self1 = self\<lparr>spawned := add_mset cmd (spawned self)\<rparr>
      in case subprocess_run 1800 (ls_process w) of
           Inl e \<Rightarrow> ([], self1)
         | Inr res \<Rightarrow>
             if returncode res \<noteq> 0 then ([], self1)
             else (parse_listing (fnmatch w) pattern
                     (split_on CHR 0x0A (strip (stdout res))) [], self1))"

text \<open>
  The progress expression \<^verbatim>\<open>(downloaded_count + failed_count) / total_files * 100\<close>;
  Python raises \<^verbatim>\<open>ZeroDivisionError\<close> for a zero divisor.
\<close>

definition download_progress :: "S3Downloader \<Rightarrow> exception + rat" where
  "download_progress self =
     (if total_files self = 0 then Inl (Exception ''division by zero'')
      else Inr (float_mul
                  (true_divide (downloaded_count self + failed_count self) (total_files self))
                  100))"

text \<open>
  The two blocks under the lock: the counter is incremented, the percentage is computed
  from the incremented state, and the progress line is printed with the percentage in
  the format \<^verbatim>\<open>5.1f\<close>. The increment stays when the percentage raises.
\<close>

definition count_downloaded :: "S3Downloader \<Rightarrow> exception option \<times> S3Downloader" where
  "count_downloaded self =
     (let self1 = self\<lparr>downloaded_count := downloaded_count self + 1\<rparr>
      in case download_progress self1 of
           Inl e \<Rightarrow> (Some e, self1)
         | Inr progress \<Rightarrow> (None, self1\<lparr>printed := printed self1 @ [format_1f progress]\<rparr>))"

definition count_download_failed :: "S3Downloader \<Rightarrow> exception option \<times> S3Downloader" where
  "count_download_failed self =
     (let self1 = self\<lparr>failed_count := failed_count self + 1\<rparr>
      in case download_progress self1 of
           Inl e \<Rightarrow> (Some e, self1)
         | Inr progress \<Rightarrow> (None, self1\<lparr>printed := printed self1 @ [format_1f progress]\<rparr>))"

text \<open>The body of the \<^verbatim>\<open>try\<close> of \<^verbatim>\<open>_download_file\<close>.\<close>

definition download_attempt :: "S3Downloader \<Rightarrow> string \<Rightarrow> download_task
    \<Rightarrow> (exception + outcome) \<times> S3Downloader" where
  "download_attempt self s3_key env =
     (let local_file = truediv (output_dir self) (name (Path s3_key))
      in case mkdir_error env of
           Some m \<Rightarrow> (Inl (Exception m), self)
         | None \<Rightarrow>
             (let cmd = build_aws_download_command self s3_key local_file;
                  self1 = self\<lparr>spawned := add_mset cmd (spawned self)\<rparr>
              in case subprocess_run 3600 (cp_process env) of
                   Inl e \<Rightarrow> (Inl e, self1)
                 | Inr res \<Rightarrow>
                     if returncode res = 0 then
                       (case count_downloaded self1 of
                          (Some e, self2) \<Rightarrow> (Inl e, self2)
                        | (None, self2) \<Rightarrow> (Inr (True, s3_key, None), self2))
                     else
                       (let error_msg = (if strip (stderr res) \<noteq> [] then strip (stderr res)
                                         else strip (stdout res))
                        in case count_download_failed self1 of
                             (Some e, self2) \<Rightarrow> (Inl e, self2)
                           | (None, self2) \<Rightarrow> (Inr (False, s3_key, Some error_msg), self2))))"

text \<open>An \<^verbatim>\<open>except\<close> clause of \<^verbatim>\<open>_download_file\<close>, entered with the message it reports.\<close>

definition download_except :: "S3Downloader \<Rightarrow> string \<Rightarrow> string
    \<Rightarrow> (exception + outcome) \<times> S3Downloader" where
  "download_except self s3_key error_msg =
     (case count_download_failed self of
        (Some e, self1) \<Rightarrow> (Inl e, self1)
      | (None, self1) \<Rightarrow> (Inr (False, s3_key, Some error_msg), self1))"

text \<open>\<^verbatim>\<open>_download_file\<close>.\<close>

definition download_file :: "S3Downloader \<Rightarrow> string \<Rightarrow> download_task
    \<Rightarrow> (exception + outcome) \<times> S3Downloader" where
  "download_file self s3_key env =
     (case download_attempt self s3_key env of
        (Inr out, self1) \<Rightarrow> (Inr out, self1)
      | (Inl TimeoutExpired, self1) \<Rightarrow>
          download_except self1 s3_key ''Download timeout (1 hour exceeded)''
      | (Inl (Exception m), self1) \<Rightarrow> download_except self1 s3_key m)"

text \<open>
  The worker threads: every submitted task runs and leaves what it returned or raised in
  its future. The counters and the progress lines change only under the lock, so their
  history is that of the tasks taken one after the other in the order in which they
  take the lock, the order of completion. The threads start their commands before that
  and in no fixed order, which is why \<open>spawned\<close> is a multiset: it tells which commands
  were started and how often, not in which order.
\<close>

fun download_workers :: "S3Downloader \<Rightarrow> (string \<times> download_task) list
    \<Rightarrow> (exception + outcome) list \<times> S3Downloader" where
  "download_workers self [] = ([], self)"
| "download_workers self ((s3_key, env) # tasks) =
     (case download_file self s3_key env of
        (r, self1) \<Rightarrow>
          (case download_workers self1 tasks of
             (rs, self2) \<Rightarrow> (r # rs, self2)))"

text \<open>
  \<^verbatim>\<open>download_files\<close>. \<^verbatim>\<open>ThreadPoolExecutor\<close> raises \<^verbatim>\<open>ValueError\<close> for a pool size
  below one. Leaving the \<^verbatim>\<open>with\<close> block waits for every task, also when the loop over
  the completions is left by an exception.
\<close>

definition download_files :: "S3Downloader \<Rightarrow> string \<Rightarrow> string option \<Rightarrow> download_world
    \<Rightarrow> (raised + result) \<times> S3Downloader" where
  "download_files self s3_prefix pattern w =
     (case list_s3_files self s3_prefix pattern w of
        (s3_files, self1) \<Rightarrow>
          if s3_files = [] then
            (Inr \<lparr>success = 0, failed = 0, errors = [], total_time = None\<rparr>, self1)
          else
            (let self2 = self1\<lparr>total_files := int (length s3_files),
                                downloaded_count := 0, failed_count := 0\<rparr>
             in if max_workers self2 \<le> 0 then
                  (Inl (Raised (Exception ''max_workers must be greater than 0'')), self2)
                else
                  (case download_workers self2
                          (scheduled s3_files (download_task w) (completion_order w)) of
                     (results, self3) \<Rightarrow>
                       if interrupted w then (Inl KeyboardInterrupt, self3)
                       else
                         (case collect results [] of
                            Inl e \<Rightarrow> (Inl (Raised e), self3)
                          | Inr errs \<Rightarrow>
                              (Inr \<lparr>success = downloaded_count self3,
                                    failed = failed_count self3,
                                    errors = errs,
                                    total_time = Some (end_time w - start_time w)\<rparr>,
                               self3)))))"

text \<open>The parsed command line of the downloader.\<close>

record download_args =
  arg_bucket :: string
  arg_output :: string
  arg_prefix :: string
  arg_pattern :: "string option"
  arg_workers :: int
  arg_profile :: "string option"

text \<open>
  \<^verbatim>\<open>S3Downloader.__init__\<close>: the object, or the exit code of the process when creating
  the output directory raises (nothing catches it, the interpreter exits with 1) or
  \<^verbatim>\<open>_check_aws_cli\<close> exits.
\<close>

definition new_downloader :: "download_args \<Rightarrow> download_world \<Rightarrow> int + S3Downloader" where
  "new_downloader args w =
     (case outdir_error w of
        Some m \<Rightarrow> Inl 1
      | None \<Rightarrow>
          (case check_aws_cli (version_process w) of
             Some code \<Rightarrow> Inl code
           | None \<Rightarrow>
               Inr \<lparr>bucket_name = arg_bucket args, max_workers = arg_workers args,
                    aws_profile = arg_profile args, failed_count = 0, total_files = 0,
                    spawned = {#[''aws'', ''--version'']#}, printed = [],
                    output_dir = Path (arg_output args), downloaded_count = 0\<rparr>))"

text \<open>\<^verbatim>\<open>main\<close> of the downloader, after the command line is parsed: the exit code.\<close>

definition download_main :: "download_args \<Rightarrow> download_world \<Rightarrow> int" where
  "download_main args w =
     (case new_downloader args w of
        Inl code \<Rightarrow> code
      | Inr downloader \<Rightarrow>
          (case fst (download_files downloader (arg_prefix args) (arg_pattern args) w) of
             Inr results \<Rightarrow> if 0 < failed results then 1 else 0
           | Inl KeyboardInterrupt \<Rightarrow> 1
           | Inl (Raised e) \<Rightarrow> 1))"

section \<open>The uploader\<close>

record S3Uploader = transfer_state +
  s3_prefix :: string
  uploaded_count :: int

text \<open>
  The environment of an upload: \<^verbatim>\<open>os.path.isfile\<close>, \<^verbatim>\<open>glob.glob\<close>, whether a directory
  exists, the strings of the paths that \<^verbatim>\<open>glob\<close> or \<^verbatim>\<open>rglob\<close> of a directory yields for
  a pattern (\<open>None\<close> when it raises), and for the task with submission index \<open>i\<close> the
  process behind its \<^verbatim>\<open>aws s3 cp\<close>.
\<close>

record upload_world = world +
  isfile :: "string \<Rightarrow> bool"
  glob :: "string \<Rightarrow> string list"
  dir_exists :: "string \<Rightarrow> bool"
  dir_glob :: "string \<Rightarrow> string \<Rightarrow> bool \<Rightarrow> string list option"
  upload_task :: "nat \<Rightarrow> proc"

definition build_aws_command :: "S3Uploader \<Rightarrow> string \<Rightarrow> string \<Rightarrow> string list" where
  "build_aws_command self local_file s3_key =
     (let cmd = [''aws'', ''s3'', ''cp'', local_file, ''s3://'' @ bucket_name self @ ''/'' @ s3_key]
      in case aws_profile self of
           None \<Rightarrow> cmd
         | Some p \<Rightarrow> if p \<noteq> [] then cmd @ [''--profile'', p] else cmd)"

text \<open>The S3 key that \<^verbatim>\<open>_upload_file\<close> gives a local file.\<close>

definition upload_key :: "S3Uploader \<Rightarrow> string \<Rightarrow> string" where
  "upload_key self local_file =
     (let file_path = Path local_file
      in if s3_prefix self \<noteq> [] then s3_prefix self @ ''/'' @ name file_path
         else name file_path)"

definition upload_progress :: "S3Uploader \<Rightarrow> exception + rat" where
  "upload_progress self =
     (if total_files self = 0 then Inl (Exception ''division by zero'')
      else Inr (float_mul
                  (true_divide (uploaded_count self + failed_count self) (total_files self))
                  100))"

definition count_uploaded :: "S3Uploader \<Rightarrow> exception option \<times> S3Uploader" where
  "count_uploaded self =
     (let self1 = self\<lparr>uploaded_count := uploaded_count self + 1\<rparr>
      in case upload_progress self1 of
           Inl e \<Rightarrow> (Some e, self1)
         | Inr progress \<Rightarrow> (None, self1\<lparr>printed := printed self1 @ [format_1f progress]\<rparr>))"

definition count_upload_failed :: "S3Uploader \<Rightarrow> exception option \<times> S3Uploader" where
  "count_upload_failed self =
     (let self1 = self\<lparr>failed_count := failed_count self + 1\<rparr>
      in case upload_progress self1 of
           Inl e \<Rightarrow> (Some e, self1)
         | Inr progress \<Rightarrow> (None, self1\<lparr>printed := printed self1 @ [format_1f progress]\<rparr>))"

text \<open>The body of the \<^verbatim>\<open>try\<close> of \<^verbatim>\<open>_upload_file\<close>.\<close>

definition upload_attempt :: "S3Uploader \<Rightarrow> string \<Rightarrow> proc
    \<Rightarrow> (exception + outcome) \<times> S3Uploader" where
  "upload_attempt self local_file env =
     (let file_path = Path local_file;
          s3_key = upload_key self local_file;
          cmd = build_aws_command self (str_path file_path) s3_key;
          self1 = self\<lparr>spawned := add_mset cmd (spawned self)\<rparr>
      in case subprocess_run 3600 env of
           Inl e \<Rightarrow> (Inl e, self1)
         | Inr res \<Rightarrow>
             if returncode res = 0 then
               (case count_uploaded self1 of
                  (Some e, self2) \<Rightarrow> (Inl e, self2)
                | (None, self2) \<Rightarrow> (Inr (True, str_path file_path, None), self2))
             else
               (let error_msg = (if strip (stderr res) \<noteq> [] then strip (stderr res)
                                 else strip (stdout res))
                in case count_upload_failed self1 of
                     (Some e, self2) \<Rightarrow> (Inl e, self2)
                   | (None, self2) \<Rightarrow>
                       (Inr (False, str_path file_path, Some error_msg), self2)))"

definition upload_except :: "S3Uploader \<Rightarrow> string \<Rightarrow> string
    \<Rightarrow> (exception + outcome) \<times> S3Uploader" where
  "upload_except self local_file error_msg =
     (case count_upload_failed self of
        (Some e, self1) \<Rightarrow> (Inl e, self1)
      | (None, self1) \<Rightarrow> (Inr (False, local_file, Some error_msg), self1))"

text \<open>\<^verbatim>\<open>_upload_file\<close>.\<close>

definition upload_file :: "S3Uploader \<Rightarrow> string \<Rightarrow> proc
    \<Rightarrow> (exception + outcome) \<times> S3Uploader" where
  "upload_file self local_file env =
     (case upload_attempt self local_file env of
        (Inr out, self1) \<Rightarrow> (Inr out, self1)
      | (Inl TimeoutExpired, self1) \<Rightarrow>
          upload_except self1 local_file ''Upload timeout (5 minutes exceeded)''
      | (Inl (Exception m), self1) \<Rightarrow> upload_except self1 local_file m)"

text \<open>
  The worker threads of the uploader, as those of the downloader: the tasks in the order
  in which they take the lock, the commands started as a multiset.
\<close>

fun upload_workers :: "S3Uploader \<Rightarrow> (string \<times> proc) list
    \<Rightarrow> (exception + outcome) list \<times> S3Uploader" where
  "upload_workers self [] = ([], self)"
| "upload_workers self ((local_file, env) # tasks) =
     (case upload_file self local_file env of
        (r, self1) \<Rightarrow>
          (case upload_workers self1 tasks of
             (rs, self2) \<Rightarrow> (r # rs, self2)))"

text \<open>\<^verbatim>\<open>upload_files\<close>.\<close>

definition upload_files :: "S3Uploader \<Rightarrow> string list \<Rightarrow> upload_world
    \<Rightarrow> (raised + result) \<times> S3Uploader" where
  "upload_files self file_list w =
     (let valid_files = filter (isfile w) file_list
      in if valid_files = [] then
           (Inr \<lparr>success = 0, failed = 0, errors = [], total_time = None\<rparr>, self)
         else
           (let self1 = self\<lparr>total_files := int (length valid_files),
                              uploaded_count := 0, failed_count := 0\<rparr>
            in if max_workers self1 \<le> 0 then
                 (Inl (Raised (Exception ''max_workers must be greater than 0'')), self1)
               else
                 (case upload_workers self1
                         (scheduled valid_files (upload_task w) (completion_order w)) of
                    (results, self2) \<Rightarrow>
                      if interrupted w then (Inl KeyboardInterrupt, self2)
                      else
                        (case collect results [] of
                           Inl e \<Rightarrow> (Inl (Raised e), self2)
                         | Inr errs \<Rightarrow>
                             (Inr \<lparr>success = uploaded_count self2,
                                   failed = failed_count self2,
                                   errors = errs,
                                   total_time = Some (end_time w - start_time w)\<rparr>,
                              self2)))))"

text \<open>\<^verbatim>\<open>get_files_from_directory\<close>; \<open>None\<close> when the glob raises.\<close>

definition get_files_from_directory :: "upload_world \<Rightarrow> string \<Rightarrow> string \<Rightarrow> bool
    \<Rightarrow> string list option" where
  "get_files_from_directory w directory pattern recursive =
     (if \<not> dir_exists w directory then Some []
      else map_option (filter (isfile w)) (dir_glob w directory pattern recursive))"

text \<open>\<^verbatim>\<open>expand_file_patterns\<close>.\<close>

fun expand_file_patterns :: "upload_world \<Rightarrow> string list \<Rightarrow> string list \<Rightarrow> string list" where
  "expand_file_patterns w [] all_files = all_files"
| "expand_file_patterns w (pattern # patterns) all_files =
     (if CHR ''*'' \<in> set pattern \<or> CHR ''?'' \<in> set pattern then
        expand_file_patterns w patterns (all_files @ glob w pattern)
      else expand_file_patterns w patterns (all_files @ [pattern]))"

text \<open>\<^verbatim>\<open>list(dict.fromkeys(xs))\<close>: the first occurrence of each element, in order.\<close>

definition dedup :: "string list \<Rightarrow> string list" where
  "dedup xs = fold (\<lambda>x seen. if x \<in> set seen then seen else seen @ [x]) xs []"

text \<open>The parsed command line of the uploader.\<close>

record upload_args =
  upl_bucket :: string
  upl_files :: "string list option"
  upl_directory :: "string option"
  upl_pattern :: string
  upl_recursive :: bool
  upl_workers :: int
  upl_prefix :: string
  upl_profile :: "string option"

text \<open>\<^verbatim>\<open>S3Uploader.__init__\<close>: the object, or the exit code of \<^verbatim>\<open>_check_aws_cli\<close>.\<close>

definition new_uploader :: "upload_args \<Rightarrow> upload_world \<Rightarrow> int + S3Uploader" where
  "new_uploader args w =
     (case check_aws_cli (version_process w) of
        Some code \<Rightarrow> Inl code
      | None \<Rightarrow>
          Inr \<lparr>bucket_name = upl_bucket args, max_workers = upl_workers args,
               aws_profile = upl_profile args, failed_count = 0, total_files = 0,
               spawned = {#[''aws'', ''--version'']#}, printed = [],
               s3_prefix = rstrip_slash (upl_prefix args), uploaded_count = 0\<rparr>)"

text \<open>
  \<^verbatim>\<open>main\<close> of the uploader, after the command line is parsed: the exit code. An
  exception that nothing catches ends the interpreter with exit code 1.
\<close>

definition upload_main :: "upload_args \<Rightarrow> upload_world \<Rightarrow> int" where
  "upload_main args w =
     (let has_files = (case upl_files args of None \<Rightarrow> False | Some fs \<Rightarrow> fs \<noteq> [])
      in if \<not> has_files \<and> \<not> truthy (upl_directory args) then 1
         else
           (let from_files = (case upl_files args of
                                None \<Rightarrow> []
                              | Some fs \<Rightarrow> expand_file_patterns w fs []);
                from_dir = (case upl_directory args of
                              None \<Rightarrow> Some []
                            | Some d \<Rightarrow>
                                if d \<noteq> [] then
                                  get_files_from_directory w d (upl_pattern args)
                                    (upl_recursive args)
                                else Some [])
            in case from_dir of
                 None \<Rightarrow> 1
               | Some dir_files \<Rightarrow>
                   (let files_to_upload = dedup (from_files @ dir_files)
                    in if files_to_upload = [] then 1
                       else
                         (case new_uploader args w of
                            Inl code \<Rightarrow> code
                          | Inr uploader \<Rightarrow>
                              (case fst (upload_files uploader files_to_upload w) of
                                 Inr results \<Rightarrow> if 0 < failed results then 1 else 0
                               | Inl KeyboardInterrupt \<Rightarrow> 1
                               | Inl (Raised e) \<Rightarrow> 1)))))"

section \<open>Notions used to state the properties\<close>

subsection \<open>Runs\<close>


text \<open>The entries that a list of outcomes leaves in the error list.\<close>

definition failures :: "outcome list \<Rightarrow> (string \<times> string option) list" where
  "failures outs = map snd (filter (\<lambda>out. \<not> fst out) outs)"

text \<open>
  The state in which \<^verbatim>\<open>download_files\<close> starts the pool for the work list \<open>s3_files\<close>, and
  the tasks of the pool in the order they complete.
\<close>

definition download_start :: "S3Downloader \<Rightarrow> string list \<Rightarrow> S3Downloader" where
  "download_start self s3_files =
     self\<lparr>total_files := int (length s3_files), downloaded_count := 0, failed_count := 0\<rparr>"

definition download_tasks :: "string list \<Rightarrow> download_world \<Rightarrow> (string \<times> download_task) list" where
  "download_tasks s3_files w = scheduled s3_files (download_task w) (completion_order w)"

text \<open>
  A dispatch run of the downloader that is not cut short: the listing gives the
  non-empty work list \<open>s3_files\<close>, the pool has at least one worker, the user does not
  interrupt, and every task completes once.
\<close>

definition download_run :: "S3Downloader \<Rightarrow> string \<Rightarrow> string option \<Rightarrow> download_world
    \<Rightarrow> string list \<Rightarrow> bool" where
  "download_run self pfx pattern w s3_files =
     (fst (list_s3_files self pfx pattern w) = s3_files \<and> s3_files \<noteq> [] \<and>
      1 \<le> max_workers self \<and> \<not> interrupted w \<and>
      valid_order (completion_order w) (length s3_files))"

text \<open>The states of the downloader after each completion, in order.\<close>

fun download_states :: "S3Downloader \<Rightarrow> (string \<times> download_task) list \<Rightarrow> S3Downloader list" where
  "download_states self [] = []"
| "download_states self ((s3_key, env) # tasks) =
     (let self1 = snd (download_file self s3_key env)
      in self1 # download_states self1 tasks)"

text \<open>What \<^verbatim>\<open>_download_file\<close> returns for an item, and the command it starts, if any.\<close>

definition download_outcome :: "string \<Rightarrow> download_task \<Rightarrow> outcome" where
  "download_outcome s3_key env =
     (case mkdir_error env of
        Some m \<Rightarrow> (False, s3_key, Some m)
      | None \<Rightarrow>
          (case subprocess_run 3600 (cp_process env) of
             Inl TimeoutExpired \<Rightarrow> (False, s3_key, Some ''Download timeout (1 hour exceeded)'')
           | Inl (Exception m) \<Rightarrow> (False, s3_key, Some m)
           | Inr res \<Rightarrow>
               if returncode res = 0 then (True, s3_key, None)
               else (False, s3_key,
                     Some (if strip (stderr res) \<noteq> [] then strip (stderr res)
                           else strip (stdout res)))))"

definition download_outcomes :: "(string \<times> download_task) list \<Rightarrow> outcome list" where
  "download_outcomes tasks = map (\<lambda>(k, env). download_outcome k env) tasks"

definition download_commands :: "S3Downloader \<Rightarrow> string \<Rightarrow> download_task \<Rightarrow> string list list" where
  "download_commands self s3_key env =
     (case mkdir_error env of
        Some m \<Rightarrow> []
      | None \<Rightarrow> [build_aws_download_command self s3_key
                    (truediv (output_dir self) (name (Path s3_key)))])"

text \<open>
  The number shown as percentage when \<open>k\<close> items of \<open>n\<close> have completed, and the one
  that belongs to a state of the downloader.
\<close>

definition percent_shown :: "int \<Rightarrow> int \<Rightarrow> rat" where
  "percent_shown k n = format_1f (float_mul (true_divide k n) 100)"

definition download_percent :: "S3Downloader \<Rightarrow> rat" where
  "download_percent self =
     percent_shown (downloaded_count self + failed_count self) (total_files self)"

text \<open>The same notions for the uploader.\<close>

definition upload_percent :: "S3Uploader \<Rightarrow> rat" where
  "upload_percent self =
     percent_shown (uploaded_count self + failed_count self) (total_files self)"

definition upload_start :: "S3Uploader \<Rightarrow> string list \<Rightarrow> S3Uploader" where
  "upload_start self valid_files =
     self\<lparr>total_files := int (length valid_files), uploaded_count := 0, failed_count := 0\<rparr>"

definition upload_tasks :: "string list \<Rightarrow> upload_world \<Rightarrow> (string \<times> proc) list" where
  "upload_tasks valid_files w = scheduled valid_files (upload_task w) (completion_order w)"

definition upload_run :: "S3Uploader \<Rightarrow> string list \<Rightarrow> upload_world \<Rightarrow> string list \<Rightarrow> bool" where
  "upload_run self file_list w valid_files =
     (filter (isfile w) file_list = valid_files \<and> valid_files \<noteq> [] \<and>
      1 \<le> max_workers self \<and> \<not> interrupted w \<and>
      valid_order (completion_order w) (length valid_files))"

fun upload_states :: "S3Uploader \<Rightarrow> (string \<times> proc) list \<Rightarrow> S3Uploader list" where
  "upload_states self [] = []"
| "upload_states self ((local_file, env) # tasks) =
     (let self1 = snd (upload_file self local_file env)
      in self1 # upload_states self1 tasks)"

definition upload_outcome :: "string \<Rightarrow> proc \<Rightarrow> outcome" where
  "upload_outcome local_file env =
     (case subprocess_run 3600 env of
        Inl TimeoutExpired \<Rightarrow> (False, local_file, Some ''Upload timeout (5 minutes exceeded)'')
      | Inl (Exception m) \<Rightarrow> (False, local_file, Some m)
      | Inr res \<Rightarrow>
          if returncode res = 0 then (True, str_path (Path local_file), None)
          else (False, str_path (Path local_file),
                Some (if strip (stderr res) \<noteq> [] then strip (stderr res)
                      else strip (stdout res))))"

definition upload_outcomes :: "(string \<times> proc) list \<Rightarrow> outcome list" where
  "upload_outcomes tasks = map (\<lambda>(f, env). upload_outcome f env) tasks"

definition upload_command :: "S3Uploader \<Rightarrow> string \<Rightarrow> string list" where
  "upload_command self local_file =
     build_aws_command self (str_path (Path local_file)) (upload_key self local_file)"



subsection \<open>Listing lines\<close>

text \<open>
  A line of \<^verbatim>\<open>aws s3 ls\<close> as the comment in \<^verbatim>\<open>_list_s3_files\<close> describes it: date, time,
  the size padded on the left with \<open>pad\<close> further spaces, and the object key.
\<close>

definition listing_line :: "string \<Rightarrow> string \<Rightarrow> nat \<Rightarrow> string \<Rightarrow> string \<Rightarrow> string" where
  "listing_line date time pad sz key =
     date @ '' '' @ time @ '' '' @ replicate pad CHR '' '' @ sz @ '' '' @ key"

text \<open>A field of a line: not empty and free of white space.\<close>

definition is_field :: "string \<Rightarrow> bool" where
  "is_field s = (s \<noteq> [] \<and> (\<forall>c \<in> set s. \<not> isspace c))"

text \<open>Two white space characters in a row.\<close>

fun consecutive_spaces :: "string \<Rightarrow> bool" where
  "consecutive_spaces (a # b # cs) = ((isspace a \<and> isspace b) \<or> consecutive_spaces (b # cs))"
| "consecutive_spaces cs = False"

section \<open>Example runs\<close>

text \<open>
  A bucket with three objects, two of them named \<^verbatim>\<open>x.txt\<close> under different prefixes and
  one with two spaces in its key. The second task to be submitted never finishes, the
  third fails with return code 1, and the tasks complete in the order 1, 0, 2.
\<close>

definition aws_ok :: proc where
  "aws_ok = Exits 1 \<lparr>returncode = 0, stdout = ''aws-cli/2.15.0'', stderr = []\<rparr>"

definition example_listing :: string where
  "example_listing =
     ''2023-12-01 10:30:45     123456 a/x.txt'' @ [CHR 0x0A] @
     ''2023-12-01 10:30:46         12 b/my  file.txt'' @ [CHR 0x0A] @
     ''                           PRE logs/'' @ [CHR 0x0A] @
     ''2023-12-01 10:30:47          5 b/x.txt'' @ [CHR 0x0A]"

definition example_task :: "nat \<Rightarrow> download_task" where
  "example_task i =
     (if i = 0 then
        \<lparr>mkdir_error = None,
         cp_process = Exits 5 \<lparr>returncode = 0, stdout = ''download: ok'', stderr = []\<rparr>\<rparr>
      else if i = 1 then \<lparr>mkdir_error = None, cp_process = Hangs\<rparr>
      else
        \<lparr>mkdir_error = None,
         cp_process = Exits 2 \<lparr>returncode = 1, stdout = [], stderr = '' fatal error: denied ''\<rparr>\<rparr>)"

definition example_world :: download_world where
  "example_world =
     \<lparr>version_process = aws_ok, completion_order = [1, 0, 2], interrupted = False,
      start_time = 10, end_time = 25,
      ls_process = Exits 2 \<lparr>returncode = 0, stdout = example_listing, stderr = []\<rparr>,
      fnmatch = (\<lambda>n p. True), outdir_error = None, download_task = example_task\<rparr>"

definition example_args :: download_args where
  "example_args =
     \<lparr>arg_bucket = ''bk'', arg_output = ''./downloads'', arg_prefix = [],
      arg_pattern = None, arg_workers = 5, arg_profile = None\<rparr>"

definition example_downloader :: S3Downloader where
  "example_downloader =
     \<lparr>bucket_name = ''bk'', max_workers = 5, aws_profile = None, failed_count = 0,
      total_files = 0, spawned = {#[''aws'', ''--version'']#}, printed = [],
      output_dir = Path ''./downloads'', downloaded_count = 0\<rparr>"

text \<open>The same bucket with no object in it: \<^verbatim>\<open>aws s3 ls\<close> prints nothing and returns 0.\<close>

definition empty_bucket :: download_world where
  "empty_bucket =
     example_world\<lparr>ls_process := Exits 2 \<lparr>returncode = 0, stdout = [], stderr = []\<rparr>\<rparr>"

text \<open>
  An upload of three paths of which \<^verbatim>\<open>gone.txt\<close> does not exist. The first task to be
  submitted never finishes, the second succeeds, and they complete in the order 1, 0.
\<close>

definition example_upload_task :: "nat \<Rightarrow> proc" where
  "example_upload_task i =
     (if i = 0 then Hangs
      else Exits 3 \<lparr>returncode = 0, stdout = ''upload: ok'', stderr = []\<rparr>)"

definition example_upload_world :: upload_world where
  "example_upload_world =
     \<lparr>version_process = aws_ok, completion_order = [1, 0], interrupted = False,
      start_time = 3, end_time = 4,
      isfile = (\<lambda>f. f \<in> set [''docs/a.txt'', ''img/a.txt'']),
      glob = (\<lambda>p. []), dir_exists = (\<lambda>d. False), dir_glob = (\<lambda>d p r. Some []),
      upload_task = example_upload_task\<rparr>"

definition example_upload_args :: upload_args where
  "example_upload_args =
     \<lparr>upl_bucket = ''bk'', upl_files = Some [''docs/a.txt'', ''gone.txt'', ''img/a.txt''],
      upl_directory = None, upl_pattern = ''*'', upl_recursive = False, upl_workers = 5,
      upl_prefix = ''backup//'', upl_profile = None\<rparr>"

definition example_uploader :: S3Uploader where
  "example_uploader =
     \<lparr>bucket_name = ''bk'', max_workers = 5, aws_profile = None, failed_count = 0,
      total_files = 0, spawned = {#[''aws'', ''--version'']#}, printed = [],
      s3_prefix = ''backup'', uploaded_count = 0\<rparr>"

text \<open>An upload whose only path does not exist.\<close>

definition missing_file_args :: upload_args where
  "missing_file_args = example_upload_args\<lparr>upl_files := Some [''gone.txt'']\<rparr>"

definition example_keys :: "string list" where
  "example_keys = [''a/x.txt'', ''b/my file.txt'', ''b/x.txt'']"

definition example_files :: "string list" where
  "example_files = [''docs/a.txt'', ''gone.txt'', ''img/a.txt'']"

definition example_valid_files :: "string list" where
  "example_valid_files = [''docs/a.txt'', ''img/a.txt'']"

section \<open>Floating-point numbers\<close>

lemma pow2_powi: "pow2 n = 2 powi n"
  by (simp add: pow2_def power_int_def field_simps)

lemma pow2_pos: "0 < pow2 n"
  by (simp add: pow2_powi)

lemma pow2_mono: "m \<le> n \<Longrightarrow> pow2 m \<le> pow2 n"
  by (simp add: pow2_powi power_int_increasing)

lemma exponent_le:
  assumes "0 < x"
  shows "pow2 (exponent x) \<le> x"
proof (cases "1 \<le> x")
  case True
  define f where "f = \<lfloor>x\<rfloor>"
  have f: "0 < f" using True by (simp add: f_def)
  from bitlen_bounds [OF f] have b: "2 ^ nat (bitlen f - 1) \<le> f" by simp
  have "1 \<le> bitlen f" using f bitlen_eq_zero_iff [of f] bitlen_nonneg [of f] by linarith
  then have "pow2 (bitlen f - 1) = 2 ^ nat (bitlen f - 1)" by (simp add: pow2_def)
  also have "\<dots> = of_int (2 ^ nat (bitlen f - 1))" by simp
  also have "\<dots> \<le> of_int f" using b by (simp only: of_int_le_iff)
  also have "\<dots> \<le> x" by (simp add: f_def)
  finally show ?thesis using True by (simp add: exponent_def f_def)
next
  case False
  define f where "f = \<lfloor>1 / x\<rfloor>"
  define k where "k = bitlen f"
  have "1 < 1 / x" using False assms by simp
  then have f: "0 < f" by (simp add: f_def)
  from bitlen_bounds [OF f] have b: "f < 2 ^ nat k" by (simp add: k_def)
  have k: "1 \<le> k" using f bitlen_eq_zero_iff [of f] bitlen_nonneg [of f] by (simp add: k_def)
  have "1 / x < of_int f + 1" using floor_correct [of "1 / x"] by (simp add: f_def)
  also have "\<dots> = of_int (f + 1)" by simp
  also have "\<dots> \<le> of_int (2 ^ nat k)" using b by (simp only: of_int_le_iff)
  finally have "1 / x < 2 ^ nat k" by simp
  then have "1 / 2 ^ nat k < x" using assms by (simp add: field_simps)
  then have lt: "pow2 (- k) < x" using k by (simp add: pow2_def)
  have e: "exponent x = (if x = pow2 (1 - k) then 1 - k else - k)"
    using False by (simp add: exponent_def f_def k_def Let_def)
  show ?thesis
  proof (cases "x = pow2 (1 - k)")
    case True
    then have "pow2 (exponent x) = x" unfolding e by simp
    then show ?thesis by simp
  next
    case neq: False
    then have "pow2 (exponent x) = pow2 (- k)" unfolding e by simp
    then show ?thesis using lt by simp
  qed
qed

lemma round_half_even_ge: "of_int n \<le> x \<Longrightarrow> n \<le> round_half_even x"
proof -
  assume "of_int n \<le> x"
  then have "n \<le> \<lfloor>x\<rfloor>" by (simp add: le_floor_iff)
  then show ?thesis by (simp add: round_half_even_def Let_def)
qed

lemma to_double_pos:
  assumes "0 < x"
  shows "0 < to_double x"
proof -
  define ulp where "ulp = pow2 (exponent x - 52)"
  have u: "0 < ulp" by (simp add: ulp_def pow2_pos)
  have "ulp \<le> pow2 (exponent x)" unfolding ulp_def by (rule pow2_mono) simp
  also have "\<dots> \<le> x" using assms by (rule exponent_le)
  finally have "of_int 1 \<le> x / ulp" using u by (simp add: field_simps)
  then have "1 \<le> round_half_even (x / ulp)" by (rule round_half_even_ge)
  then have "0 < (of_int (round_half_even (x / ulp)) :: rat)" by simp
  then have "0 < of_int (round_half_even (x / ulp)) * ulp" using u by simp
  moreover have "to_double x = of_int (round_half_even (x / ulp)) * ulp"
    using assms by (simp add: to_double_def ulp_def Let_def)
  ultimately show ?thesis by simp
qed

lemma true_divide_same: "n \<noteq> 0 \<Longrightarrow> true_divide n n = to_double 1"
  by (simp add: true_divide_def)

lemma hundred: "to_double 1 = 1" "float_mul 1 100 = 100" "format_1f 100 = 100"
  by code_simp+

lemma percent_value_pos:
  assumes "0 < k" "0 < n"
  shows "0 < float_mul (true_divide k n) 100"
proof -
  have "0 < (of_int k / of_int n :: rat)" using assms by simp
  then have "0 < true_divide k n" unfolding true_divide_def by (rule to_double_pos)
  then have "0 < true_divide k n * 100" by simp
  then show ?thesis unfolding float_mul_def by (rule to_double_pos)
qed

lemma percent_shown_all: "n \<noteq> 0 \<Longrightarrow> percent_shown n n = 100"
  by (simp add: percent_shown_def true_divide_same hundred)

lemma format_1f_nonneg:
  assumes "0 \<le> x"
  shows "0 \<le> format_1f x"
proof -
  have "of_int 0 \<le> x * 10" using assms by simp
  then have "0 \<le> round_half_even (x * 10)" by (rule round_half_even_ge)
  then show ?thesis by (simp add: format_1f_def)
qed

section \<open>One task\<close>

lemmas download_defs =
  download_file_def download_attempt_def download_except_def count_downloaded_def
  count_download_failed_def download_progress_def download_outcome_def download_commands_def

lemmas upload_defs =
  upload_file_def upload_attempt_def upload_except_def count_uploaded_def
  count_upload_failed_def upload_progress_def upload_outcome_def upload_command_def

lemmas task_splits =
  option.splits sum.splits exception.splits prod.splits

lemma download_file_returns:
  "total_files self \<noteq> 0 \<Longrightarrow> fst (download_file self k env) = Inr (download_outcome k env)"
  by (simp add: download_defs Let_def split: task_splits)

lemma download_file_total [simp]:
  "total_files (snd (download_file self k env)) = total_files self"
  by (simp add: download_defs Let_def split: task_splits)

lemma download_file_config [simp]:
  "bucket_name (snd (download_file self k env)) = bucket_name self"
  "aws_profile (snd (download_file self k env)) = aws_profile self"
  "output_dir (snd (download_file self k env)) = output_dir self"
  "max_workers (snd (download_file self k env)) = max_workers self"
  by (simp_all add: download_defs Let_def split: task_splits)

lemma download_file_counts:
  "total_files self \<noteq> 0 \<Longrightarrow>
     downloaded_count (snd (download_file self k env)) =
       downloaded_count self + (if fst (download_outcome k env) then 1 else 0) \<and>
     failed_count (snd (download_file self k env)) =
       failed_count self + (if fst (download_outcome k env) then 0 else 1)"
  by (simp add: download_defs Let_def split: task_splits)

lemma download_file_printed:
  "total_files self \<noteq> 0 \<Longrightarrow>
     printed (snd (download_file self k env)) =
       printed self @ [percent_shown (downloaded_count self + failed_count self + 1)
                        (total_files self)]"
  by (simp add: download_defs percent_shown_def Let_def add.commute add.left_commute
      split: task_splits)

lemma download_file_spawned:
  "spawned (snd (download_file self k env)) = spawned self + mset (download_commands self k env)"
  by (simp add: download_defs Let_def split: task_splits)

lemma download_commands_cong:
  "bucket_name s = bucket_name self \<Longrightarrow> aws_profile s = aws_profile self \<Longrightarrow>
     output_dir s = output_dir self \<Longrightarrow>
     download_commands s k env = download_commands self k env"
  by (simp add: download_commands_def build_aws_download_command_def split: option.splits)

lemma upload_file_returns:
  "total_files self \<noteq> 0 \<Longrightarrow> fst (upload_file self f env) = Inr (upload_outcome f env)"
  by (simp add: upload_defs Let_def split: task_splits)

lemma upload_file_total [simp]:
  "total_files (snd (upload_file self f env)) = total_files self"
  by (simp add: upload_defs Let_def split: task_splits)

lemma upload_file_config [simp]:
  "bucket_name (snd (upload_file self f env)) = bucket_name self"
  "aws_profile (snd (upload_file self f env)) = aws_profile self"
  "s3_prefix (snd (upload_file self f env)) = s3_prefix self"
  "max_workers (snd (upload_file self f env)) = max_workers self"
  by (simp_all add: upload_defs Let_def split: task_splits)

lemma upload_file_counts:
  "total_files self \<noteq> 0 \<Longrightarrow>
     uploaded_count (snd (upload_file self f env)) =
       uploaded_count self + (if fst (upload_outcome f env) then 1 else 0) \<and>
     failed_count (snd (upload_file self f env)) =
       failed_count self + (if fst (upload_outcome f env) then 0 else 1)"
  by (simp add: upload_defs Let_def split: task_splits)

lemma upload_file_printed:
  "total_files self \<noteq> 0 \<Longrightarrow>
     printed (snd (upload_file self f env)) =
       printed self @ [percent_shown (uploaded_count self + failed_count self + 1)
                        (total_files self)]"
  by (simp add: upload_defs percent_shown_def Let_def add.commute add.left_commute
      split: task_splits)

lemma upload_file_spawned:
  "spawned (snd (upload_file self f env)) = add_mset (upload_command self f) (spawned self)"
  by (simp add: upload_defs Let_def split: task_splits)

lemma upload_command_cong:
  "bucket_name s = bucket_name self \<Longrightarrow> aws_profile s = aws_profile self \<Longrightarrow>
     s3_prefix s = s3_prefix self \<Longrightarrow> upload_command s f = upload_command self f"
  by (simp add: upload_command_def build_aws_command_def upload_key_def Let_def
      split: option.splits)

section \<open>All tasks of a run\<close>

lemma collect_outcomes:
  "collect (map Inr outs) errs = Inr (errs @ failures outs)"
  by (induction outs arbitrary: errs) (auto simp: failures_def)

lemma length_failures:
  "int (length (failures outs)) = int (length (filter (\<lambda>out. \<not> fst out) outs))"
  by (simp add: failures_def)

lemma count_outcomes:
  "int (length (filter fst outs)) + int (length (filter (\<lambda>out. \<not> fst out) outs))
     = int (length (outs :: outcome list))"
  using sum_length_filter_compl [of fst outs] by simp

lemma download_workers_Cons:
  "download_workers self ((k, env) # tasks) =
     (fst (download_file self k env) # fst (download_workers (snd (download_file self k env)) tasks),
      snd (download_workers (snd (download_file self k env)) tasks))"
  by (simp split: prod.splits)

lemma download_workers_returns:
  "total_files self \<noteq> 0 \<Longrightarrow>
     fst (download_workers self tasks) = map Inr (download_outcomes tasks)"
proof (induction tasks arbitrary: self)
  case Nil
  then show ?case by (simp add: download_outcomes_def)
next
  case (Cons t tasks)
  obtain k env where t: "t = (k, env)" by (cases t)
  have "total_files (snd (download_file self k env)) \<noteq> 0"
    using Cons.prems by simp
  from Cons.IH [OF this] download_file_returns [OF Cons.prems, of k env]
  show ?case
    by (simp add: t download_outcomes_def download_workers_Cons del: download_workers.simps)
qed


lemma length_download_states [simp]:
  "length (download_states self tasks) = length tasks"
  by (induction tasks arbitrary: self) (auto simp: Let_def)

lemma download_states_config:
  "s \<in> set (download_states self tasks) \<Longrightarrow>
     total_files s = total_files self \<and>
     bucket_name s = bucket_name self \<and> aws_profile s = aws_profile self \<and>
     output_dir s = output_dir self \<and> max_workers s = max_workers self"
  by (induction tasks arbitrary: self) (auto simp: Let_def)

text \<open>After \<open>j + 1\<close> completions the counters are those of the first \<open>j + 1\<close> outcomes.\<close>

lemma download_states_counts:
  "total_files self \<noteq> 0 \<Longrightarrow> j < length tasks \<Longrightarrow>
     downloaded_count (download_states self tasks ! j) =
       downloaded_count self + int (length (filter fst (download_outcomes (take (Suc j) tasks)))) \<and>
     failed_count (download_states self tasks ! j) =
       failed_count self
         + int (length (filter (\<lambda>out. \<not> fst out) (download_outcomes (take (Suc j) tasks))))"
proof (induction tasks arbitrary: self j)
  case Nil
  then show ?case by simp
next
  case (Cons t tasks)
  obtain k env where t: "t = (k, env)" by (cases t)
  let ?s1 = "snd (download_file self k env)"
  have s1: "total_files ?s1 \<noteq> 0" using Cons.prems by simp
  show ?case
  proof (cases j)
    case 0
    then show ?thesis
      using download_file_counts [OF Cons.prems(1), of k env]
      by (simp add: t Let_def download_outcomes_def)
  next
    case (Suc i)
    then have "i < length tasks" using Cons.prems by simp
    from Cons.IH [OF s1 this] download_file_counts [OF Cons.prems(1), of k env]
    show ?thesis
      by (simp add: t Suc Let_def download_outcomes_def)
  qed
qed

lemma download_states_sum:
  assumes "total_files self \<noteq> 0" "j < length tasks"
  shows "downloaded_count (download_states self tasks ! j)
           + failed_count (download_states self tasks ! j)
         = downloaded_count self + failed_count self + int j + 1"
proof -
  have "int (length (download_outcomes (take (Suc j) tasks))) = int j + 1"
    using assms(2) by (simp add: download_outcomes_def)
  then show ?thesis
    using download_states_counts [OF assms]
          count_outcomes [of "download_outcomes (take (Suc j) tasks)"]
    by linarith
qed

lemma download_file_percent:
  "total_files self \<noteq> 0 \<Longrightarrow>
     printed (snd (download_file self k env)) =
       printed self @ [download_percent (snd (download_file self k env))]"
  by (simp add: download_defs download_percent_def percent_shown_def Let_def split: task_splits)

lemma download_workers_printed:
  "total_files self \<noteq> 0 \<Longrightarrow>
     printed (snd (download_workers self tasks)) =
       printed self @ map download_percent (download_states self tasks)"
proof (induction tasks arbitrary: self)
  case Nil
  then show ?case by simp
next
  case (Cons t tasks)
  obtain k env where t: "t = (k, env)" by (cases t)
  let ?s1 = "snd (download_file self k env)"
  have s1: "total_files ?s1 \<noteq> 0" using Cons.prems by simp
  from Cons.IH [OF s1] download_file_percent [OF Cons.prems, of k env]
  show ?case
    by (simp add: t Let_def download_workers_Cons del: download_workers.simps)
qed

lemma download_commands_map:
  assumes "bucket_name s = bucket_name self" "aws_profile s = aws_profile self"
    "output_dir s = output_dir self"
  shows "map (\<lambda>(k, env). download_commands s k env) tasks
         = map (\<lambda>(k, env). download_commands self k env) tasks"
  by (rule map_cong [OF refl]) (auto simp: download_commands_cong [OF assms])

lemma download_workers_spawned:
  "spawned (snd (download_workers self tasks)) =
     spawned self + mset (concat (map (\<lambda>(k, env). download_commands self k env) tasks))"
proof (induction tasks arbitrary: self)
  case Nil
  then show ?case by simp
next
  case (Cons t tasks)
  obtain k env where t: "t = (k, env)" by (cases t)
  define s1 where "s1 = snd (download_file self k env)"
  have eq: "map (\<lambda>(k, env). download_commands s1 k env) tasks
            = map (\<lambda>(k, env). download_commands self k env) tasks"
    by (rule download_commands_map) (simp_all add: s1_def)
  have "spawned (snd (download_workers s1 tasks))
        = spawned self + mset (download_commands self k env
            @ concat (map (\<lambda>(k, env). download_commands self k env) tasks))"
    unfolding Cons.IH [of s1] eq by (simp add: s1_def download_file_spawned)
  then show ?case
    by (simp add: t s1_def download_workers_Cons del: download_workers.simps)
qed

lemma upload_workers_Cons:
  "upload_workers self ((k, env) # tasks) =
     (fst (upload_file self k env) # fst (upload_workers (snd (upload_file self k env)) tasks),
      snd (upload_workers (snd (upload_file self k env)) tasks))"
  by (simp split: prod.splits)

lemma upload_workers_returns:
  "total_files self \<noteq> 0 \<Longrightarrow>
     fst (upload_workers self tasks) = map Inr (upload_outcomes tasks)"
proof (induction tasks arbitrary: self)
  case Nil
  then show ?case by (simp add: upload_outcomes_def)
next
  case (Cons t tasks)
  obtain k env where t: "t = (k, env)" by (cases t)
  have "total_files (snd (upload_file self k env)) \<noteq> 0"
    using Cons.prems by simp
  from Cons.IH [OF this] upload_file_returns [OF Cons.prems, of k env]
  show ?case
    by (simp add: t upload_outcomes_def upload_workers_Cons del: upload_workers.simps)
qed


lemma length_upload_states [simp]:
  "length (upload_states self tasks) = length tasks"
  by (induction tasks arbitrary: self) (auto simp: Let_def)

lemma upload_states_config:
  "s \<in> set (upload_states self tasks) \<Longrightarrow>
     total_files s = total_files self \<and>
     bucket_name s = bucket_name self \<and> aws_profile s = aws_profile self \<and>
     s3_prefix s = s3_prefix self \<and> max_workers s = max_workers self"
  by (induction tasks arbitrary: self) (auto simp: Let_def)

lemma upload_states_counts:
  "total_files self \<noteq> 0 \<Longrightarrow> j < length tasks \<Longrightarrow>
     uploaded_count (upload_states self tasks ! j) =
       uploaded_count self + int (length (filter fst (upload_outcomes (take (Suc j) tasks)))) \<and>
     failed_count (upload_states self tasks ! j) =
       failed_count self
         + int (length (filter (\<lambda>out. \<not> fst out) (upload_outcomes (take (Suc j) tasks))))"
proof (induction tasks arbitrary: self j)
  case Nil
  then show ?case by simp
next
  case (Cons t tasks)
  obtain k env where t: "t = (k, env)" by (cases t)
  let ?s1 = "snd (upload_file self k env)"
  have s1: "total_files ?s1 \<noteq> 0" using Cons.prems by simp
  show ?case
  proof (cases j)
    case 0
    then show ?thesis
      using upload_file_counts [OF Cons.prems(1), of k env]
      by (simp add: t Let_def upload_outcomes_def)
  next
    case (Suc i)
    then have "i < length tasks" using Cons.prems by simp
    from Cons.IH [OF s1 this] upload_file_counts [OF Cons.prems(1), of k env]
    show ?thesis
      by (simp add: t Suc Let_def upload_outcomes_def)
  qed
qed

lemma upload_states_sum:
  assumes "total_files self \<noteq> 0" "j < length tasks"
  shows "uploaded_count (upload_states self tasks ! j)
           + failed_count (upload_states self tasks ! j)
         = uploaded_count self + failed_count self + int j + 1"
proof -
  have "int (length (upload_outcomes (take (Suc j) tasks))) = int j + 1"
    using assms(2) by (simp add: upload_outcomes_def)
  then show ?thesis
    using upload_states_counts [OF assms]
          count_outcomes [of "upload_outcomes (take (Suc j) tasks)"]
    by linarith
qed

lemma upload_file_percent:
  "total_files self \<noteq> 0 \<Longrightarrow>
     printed (snd (upload_file self k env)) =
       printed self @ [upload_percent (snd (upload_file self k env))]"
  by (simp add: upload_defs upload_percent_def percent_shown_def Let_def split: task_splits)

lemma upload_workers_printed:
  "total_files self \<noteq> 0 \<Longrightarrow>
     printed (snd (upload_workers self tasks)) =
       printed self @ map upload_percent (upload_states self tasks)"
proof (induction tasks arbitrary: self)
  case Nil
  then show ?case by simp
next
  case (Cons t tasks)
  obtain k env where t: "t = (k, env)" by (cases t)
  let ?s1 = "snd (upload_file self k env)"
  have s1: "total_files ?s1 \<noteq> 0" using Cons.prems by simp
  from Cons.IH [OF s1] upload_file_percent [OF Cons.prems, of k env]
  show ?case
    by (simp add: t Let_def upload_workers_Cons del: upload_workers.simps)
qed

lemma upload_command_map:
  assumes "bucket_name s = bucket_name self" "aws_profile s = aws_profile self"
    "s3_prefix s = s3_prefix self"
  shows "map (\<lambda>(f, env). upload_command s f) tasks
         = map (\<lambda>(f, env). upload_command self f) tasks"
  by (rule map_cong [OF refl]) (auto simp: upload_command_cong [OF assms])

lemma upload_workers_spawned:
  "spawned (snd (upload_workers self tasks)) =
     spawned self + mset (map (\<lambda>(f, env). upload_command self f) tasks)"
proof (induction tasks arbitrary: self)
  case Nil
  then show ?case by simp
next
  case (Cons t tasks)
  obtain k env where t: "t = (k, env)" by (cases t)
  define s1 where "s1 = snd (upload_file self k env)"
  have eq: "map (\<lambda>(f, env). upload_command s1 f) tasks
            = map (\<lambda>(f, env). upload_command self f) tasks"
    by (rule upload_command_map) (simp_all add: s1_def)
  have "spawned (snd (upload_workers s1 tasks))
        = spawned self + mset (upload_command self k
            # map (\<lambda>(f, env). upload_command self f) tasks)"
    unfolding Cons.IH [of s1] eq by (simp add: s1_def upload_file_spawned)
  then show ?case
    by (simp add: t s1_def upload_workers_Cons del: upload_workers.simps)
qed

section \<open>A whole run\<close>

lemma valid_order_length: "valid_order ord n \<Longrightarrow> length ord = n"
  using distinct_card [of ord] by (simp add: valid_order_def)

lemma valid_order_mem: "valid_order ord n \<Longrightarrow> i < n \<Longrightarrow> i \<in> set ord"
  by (simp add: valid_order_def)

lemma scheduled_mem:
  assumes "valid_order ord (length items)" "i < length items"
  shows "(items ! i, env i) \<in> set (scheduled items env ord)"
proof -
  have "i \<in> set ord" using assms by (rule valid_order_mem)
  then have "(\<lambda>i. (items ! i, env i)) i \<in> (\<lambda>i. (items ! i, env i)) ` set ord"
    by (rule imageI)
  then show ?thesis by (simp add: scheduled_def)
qed

lemma scheduled_items:
  assumes "valid_order ord (length items)" "t \<in> set (scheduled items env ord)"
  shows "\<exists>i < length items. t = (items ! i, env i)"
proof -
  from assms(2) obtain i where i: "i \<in> set ord" and t: "t = (items ! i, env i)"
    unfolding scheduled_def set_map by (elim imageE)
  have "set ord = {..<length items}" using assms(1) unfolding valid_order_def by (elim conjE)
  with i have "i < length items" by simp
  with t show ?thesis by blast
qed

lemma length_scheduled:
  assumes "valid_order ord (length items)"
  shows "length (scheduled items env ord) = length items"
  using valid_order_length [OF assms] by (simp add: scheduled_def)

lemma list_s3_files_state:
  "snd (list_s3_files self pfx pat w) =
     self\<lparr>spawned := add_mset (build_aws_list_command self pfx) (spawned self)\<rparr>"
  by (simp add: list_s3_files_def Let_def split: sum.splits)

lemma download_workers_counts:
  "total_files self \<noteq> 0 \<Longrightarrow>
     downloaded_count (snd (download_workers self tasks)) =
       downloaded_count self + int (length (filter fst (download_outcomes tasks))) \<and>
     failed_count (snd (download_workers self tasks)) =
       failed_count self + int (length (filter (\<lambda>out. \<not> fst out) (download_outcomes tasks)))"
proof (induction tasks arbitrary: self)
  case Nil
  then show ?case by (simp add: download_outcomes_def)
next
  case (Cons t tasks)
  obtain k env where t: "t = (k, env)" by (cases t)
  have "total_files (snd (download_file self k env)) \<noteq> 0"
    using Cons.prems by simp
  from Cons.IH [OF this] download_file_counts [OF Cons.prems, of k env]
  show ?case
    by (simp add: t download_outcomes_def download_workers_Cons del: download_workers.simps)
qed

lemma download_workers_total [simp]:
  "total_files (snd (download_workers self tasks)) = total_files self"
proof (induction tasks arbitrary: self)
  case Nil
  then show ?case by simp
next
  case (Cons t tasks)
  obtain k env where t: "t = (k, env)" by (cases t)
  from Cons.IH [of "snd (download_file self k env)"]
  show ?case
    by (simp add: t download_workers_Cons del: download_workers.simps)
qed

lemma download_files_completed:
  assumes "download_run self pfx pat w keys"
  shows "download_files self pfx pat w =
     (Inr \<lparr>success = int (length (filter fst (download_outcomes (download_tasks keys w)))),
           failed = int (length (failures (download_outcomes (download_tasks keys w)))),
           errors = failures (download_outcomes (download_tasks keys w)),
           total_time = Some (end_time w - start_time w)\<rparr>,
      snd (download_workers (download_start (snd (list_s3_files self pfx pat w)) keys)
             (download_tasks keys w)))"
proof -
  obtain self1 where l: "list_s3_files self pfx pat w = (keys, self1)"
    using assms by (cases "list_s3_files self pfx pat w") (simp add: download_run_def)
  have mw: "max_workers self1 = max_workers self"
    using list_s3_files_state [of self pfx pat w] by (simp add: l)
  define st0 where "st0 = download_start self1 keys"
  have keys: "keys \<noteq> []" and run: "\<not> interrupted w" and pool: "\<not> max_workers self \<le> 0"
    using assms by (simp_all add: download_run_def)
  have tot: "total_files st0 \<noteq> 0"
    using keys by (simp add: st0_def download_start_def)
  have zero: "downloaded_count st0 = 0" "failed_count st0 = 0"
    by (simp_all add: st0_def download_start_def)
  obtain rs st where ws: "download_workers st0 (download_tasks keys w) = (rs, st)"
    by (cases "download_workers st0 (download_tasks keys w)")
  have rs: "rs = map Inr (download_outcomes (download_tasks keys w))"
    using download_workers_returns [OF tot, of "download_tasks keys w"] by (simp add: ws)
  have cnt: "downloaded_count st = int (length (filter fst (download_outcomes (download_tasks keys w))))"
    "failed_count st = int (length (failures (download_outcomes (download_tasks keys w))))"
    using download_workers_counts [OF tot, of "download_tasks keys w"]
    by (simp_all add: ws zero failures_def)
  have "download_files self pfx pat w =
     (Inr \<lparr>success = downloaded_count st, failed = failed_count st,
           errors = failures (download_outcomes (download_tasks keys w)),
           total_time = Some (end_time w - start_time w)\<rparr>, st)"
    using keys run pool ws [unfolded st0_def download_start_def download_tasks_def]
    by (simp add: download_files_def l mw rs collect_outcomes)
  then show ?thesis
    by (simp add: cnt l ws [unfolded st0_def])
qed

lemma upload_workers_counts:
  "total_files self \<noteq> 0 \<Longrightarrow>
     uploaded_count (snd (upload_workers self tasks)) =
       uploaded_count self + int (length (filter fst (upload_outcomes tasks))) \<and>
     failed_count (snd (upload_workers self tasks)) =
       failed_count self + int (length (filter (\<lambda>out. \<not> fst out) (upload_outcomes tasks)))"
proof (induction tasks arbitrary: self)
  case Nil
  then show ?case by (simp add: upload_outcomes_def)
next
  case (Cons t tasks)
  obtain k env where t: "t = (k, env)" by (cases t)
  have "total_files (snd (upload_file self k env)) \<noteq> 0"
    using Cons.prems by simp
  from Cons.IH [OF this] upload_file_counts [OF Cons.prems, of k env]
  show ?case
    by (simp add: t upload_outcomes_def upload_workers_Cons del: upload_workers.simps)
qed

lemma upload_workers_total [simp]:
  "total_files (snd (upload_workers self tasks)) = total_files self"
proof (induction tasks arbitrary: self)
  case Nil
  then show ?case by simp
next
  case (Cons t tasks)
  obtain k env where t: "t = (k, env)" by (cases t)
  from Cons.IH [of "snd (upload_file self k env)"]
  show ?case
    by (simp add: t upload_workers_Cons del: upload_workers.simps)
qed

lemma upload_files_completed:
  assumes "upload_run self file_list w valid"
  shows "upload_files self file_list w =
     (Inr \<lparr>success = int (length (filter fst (upload_outcomes (upload_tasks valid w)))),
           failed = int (length (failures (upload_outcomes (upload_tasks valid w)))),
           errors = failures (upload_outcomes (upload_tasks valid w)),
           total_time = Some (end_time w - start_time w)\<rparr>,
      snd (upload_workers (upload_start self valid) (upload_tasks valid w)))"
proof -
  have v: "filter (isfile w) file_list = valid"
    and ne: "valid \<noteq> []" and run: "\<not> interrupted w" and pool: "\<not> max_workers self \<le> 0"
    using assms by (simp_all add: upload_run_def)
  define st0 where "st0 = upload_start self valid"
  have tot: "total_files st0 \<noteq> 0"
    using ne by (simp add: st0_def upload_start_def)
  have zero: "uploaded_count st0 = 0" "failed_count st0 = 0"
    by (simp_all add: st0_def upload_start_def)
  obtain rs st where ws: "upload_workers st0 (upload_tasks valid w) = (rs, st)"
    by (cases "upload_workers st0 (upload_tasks valid w)")
  have rs: "rs = map Inr (upload_outcomes (upload_tasks valid w))"
    using upload_workers_returns [OF tot, of "upload_tasks valid w"] by (simp add: ws)
  have cnt: "uploaded_count st = int (length (filter fst (upload_outcomes (upload_tasks valid w))))"
    "failed_count st = int (length (failures (upload_outcomes (upload_tasks valid w))))"
    using upload_workers_counts [OF tot, of "upload_tasks valid w"]
    by (simp_all add: ws zero failures_def)
  have "upload_files self file_list w =
     (Inr \<lparr>success = uploaded_count st, failed = failed_count st,
           errors = failures (upload_outcomes (upload_tasks valid w)),
           total_time = Some (end_time w - start_time w)\<rparr>, st)"
    using ne run pool ws [unfolded st0_def upload_start_def upload_tasks_def]
    by (simp add: upload_files_def v Let_def rs collect_outcomes)
  then show ?thesis
    by (simp add: cnt ws [unfolded st0_def])
qed

section \<open>The example runs\<close>

lemma example_download_run:
  "download_run example_downloader [] None example_world example_keys"
  by code_simp

lemma example_upload_run:
  "upload_run example_uploader example_files example_upload_world example_valid_files"
  by code_simp

section \<open>Outcomes of raising and timed-out transfers\<close>














lemma upload_run_sum:
  assumes "upload_run self file_list w valid"
  shows "int (length (filter fst (upload_outcomes (upload_tasks valid w))))
         + int (length (failures (upload_outcomes (upload_tasks valid w))))
         = int (length valid)"
proof -
  have "length (upload_outcomes (upload_tasks valid w)) = length valid"
    using assms by (simp add: upload_outcomes_def upload_tasks_def upload_run_def
        length_scheduled)
  then show ?thesis
    using count_outcomes [of "upload_outcomes (upload_tasks valid w)"]
    by (simp add: failures_def)
qed

section \<open>Progress lines of a run\<close>

lemma download_percents:
  assumes "total_files st0 = int n" "n \<noteq> 0" "downloaded_count st0 = 0" "failed_count st0 = 0"
    "length tasks = n"
  shows "map download_percent (download_states st0 tasks)
         = map (\<lambda>j. percent_shown (int (Suc j)) (int n)) [0..<n]"
proof (rule nth_equalityI)
  show "length (map download_percent (download_states st0 tasks))
        = length (map (\<lambda>j. percent_shown (int (Suc j)) (int n)) [0..<n])"
    using assms(5) by simp
next
  fix j
  assume "j < length (map download_percent (download_states st0 tasks))"
  then have j: "j < length tasks" by simp
  have tot: "total_files st0 \<noteq> 0" using assms(1,2) by simp
  have "download_states st0 tasks ! j \<in> set (download_states st0 tasks)"
    using j by simp
  then have t: "total_files (download_states st0 tasks ! j) = int n"
    using download_states_config [of "download_states st0 tasks ! j" st0 tasks] assms(1) by simp
  have s: "downloaded_count (download_states st0 tasks ! j)
           + failed_count (download_states st0 tasks ! j) = int (Suc j)"
    using download_states_sum [OF tot j] assms(3,4) by simp
  have "download_percent (download_states st0 tasks ! j) = percent_shown (int (Suc j)) (int n)"
    unfolding download_percent_def s t by simp
  then show "map download_percent (download_states st0 tasks) ! j
             = map (\<lambda>j. percent_shown (int (Suc j)) (int n)) [0..<n] ! j"
    using j assms(5) by simp
qed

lemma upload_percents:
  assumes "total_files st0 = int n" "n \<noteq> 0" "uploaded_count st0 = 0" "failed_count st0 = 0"
    "length tasks = n"
  shows "map upload_percent (upload_states st0 tasks)
         = map (\<lambda>j. percent_shown (int (Suc j)) (int n)) [0..<n]"
proof (rule nth_equalityI)
  show "length (map upload_percent (upload_states st0 tasks))
        = length (map (\<lambda>j. percent_shown (int (Suc j)) (int n)) [0..<n])"
    using assms(5) by simp
next
  fix j
  assume "j < length (map upload_percent (upload_states st0 tasks))"
  then have j: "j < length tasks" by simp
  have tot: "total_files st0 \<noteq> 0" using assms(1,2) by simp
  have "upload_states st0 tasks ! j \<in> set (upload_states st0 tasks)"
    using j by simp
  then have t: "total_files (upload_states st0 tasks ! j) = int n"
    using upload_states_config [of "upload_states st0 tasks ! j" st0 tasks] assms(1) by simp
  have s: "uploaded_count (upload_states st0 tasks ! j)
           + failed_count (upload_states st0 tasks ! j) = int (Suc j)"
    using upload_states_sum [OF tot j] assms(3,4) by simp
  have "upload_percent (upload_states st0 tasks ! j) = percent_shown (int (Suc j)) (int n)"
    unfolding upload_percent_def s t by simp
  then show "map upload_percent (upload_states st0 tasks) ! j
             = map (\<lambda>j. percent_shown (int (Suc j)) (int n)) [0..<n] ! j"
    using j assms(5) by simp
qed

lemma download_run_printed:
  assumes "download_run self pfx pat w keys"
  shows "printed (snd (download_workers (download_start (snd (list_s3_files self pfx pat w)) keys)
                         (download_tasks keys w)))
         = printed self @ map (\<lambda>j. percent_shown (int (Suc j)) (int (length keys))) [0..<length keys]"
proof -
  define st0 where "st0 = download_start (snd (list_s3_files self pfx pat w)) keys"
  have ne: "length keys \<noteq> 0" using assms by (simp add: download_run_def)
  have len: "length (download_tasks keys w) = length keys"
    using assms by (simp add: download_tasks_def download_run_def length_scheduled)
  have st0: "total_files st0 = int (length keys)" "downloaded_count st0 = 0"
    "failed_count st0 = 0" "printed st0 = printed self"
    by (simp_all add: st0_def download_start_def list_s3_files_state)
  have tot: "total_files st0 \<noteq> 0" using ne st0(1) by simp
  show ?thesis
    unfolding st0_def [symmetric] download_workers_printed [OF tot]
      download_percents [OF st0(1) ne st0(2,3) len] st0(4) ..
qed

lemma upload_run_printed:
  assumes "upload_run self file_list w valid"
  shows "printed (snd (upload_workers (upload_start self valid) (upload_tasks valid w)))
         = printed self @ map (\<lambda>j. percent_shown (int (Suc j)) (int (length valid))) [0..<length valid]"
proof -
  define st0 where "st0 = upload_start self valid"
  have ne: "length valid \<noteq> 0" using assms by (simp add: upload_run_def)
  have len: "length (upload_tasks valid w) = length valid"
    using assms by (simp add: upload_tasks_def upload_run_def length_scheduled)
  have st0: "total_files st0 = int (length valid)" "uploaded_count st0 = 0"
    "failed_count st0 = 0" "printed st0 = printed self"
    by (simp_all add: st0_def upload_start_def)
  have tot: "total_files st0 \<noteq> 0" using ne st0(1) by simp
  show ?thesis
    unfolding st0_def [symmetric] upload_workers_printed [OF tot]
      upload_percents [OF st0(1) ne st0(2,3) len] st0(4) ..
qed

lemma percent_first_last:
  assumes "n \<noteq> 0"
  defines "new \<equiv> map (\<lambda>j. percent_shown (int (Suc j)) (int n)) [0..<n]"
  shows "hd new = percent_shown 1 (int n)" "last new = 100"
proof -
  obtain m where n: "n = Suc m" using assms(1) by (cases n) simp_all
  have ne: "[0..<n] \<noteq> []" using assms(1) by simp
  show "hd new = percent_shown 1 (int n)"
    unfolding new_def hd_map [OF ne] using assms(1) by (simp add: hd_upt)
  have "last new = percent_shown (int (Suc (last [0..<n]))) (int n)"
    unfolding new_def last_map [OF ne] ..
  also have "last [0..<n] = m" unfolding n by simp
  also have "percent_shown (int (Suc m)) (int n) = 100"
    unfolding n by (rule percent_shown_all) simp
  finally show "last new = 100" .
qed

section \<open>The counters during a run\<close>









section \<open>What an upload run starts and reports\<close>

lemma upload_outcome_item:
  "fst (snd (upload_outcome f env)) = f \<or> fst (snd (upload_outcome f env)) = str_path (Path f)"
  by (simp add: upload_outcome_def split: sum.splits exception.splits)

lemma upload_command_source:
  "upload_command self f ! 3 = str_path (Path f)"
  by (simp add: upload_command_def build_aws_command_def Let_def numeral_3_eq_3
      split: option.splits)

lemma mset_scheduled:
  assumes "valid_order ord (length xs)"
  shows "mset (map ((!) xs) ord) = mset xs"
proof -
  have "distinct ord \<and> set ord = {..<length xs}"
    using assms unfolding valid_order_def .
  then have d: "distinct ord" and s0: "set ord = {..<length xs}"
    by (rule conjunct1, rule conjunct2)
  have s: "set ord = set [0..<length xs]"
    unfolding s0 by (simp add: lessThan_atLeast0)
  have "mset ord = mset [0..<length xs]"
    using set_eq_iff_mset_eq_distinct [OF d distinct_upt, of 0 "length xs"] s by blast
  then have "image_mset ((!) xs) (mset ord) = image_mset ((!) xs) (mset [0..<length xs])"
    by simp
  then have "mset (map ((!) xs) ord) = mset (map ((!) xs) [0..<length xs])"
    by simp
  then show ?thesis by (simp only: map_nth)
qed

lemma upload_run_spawned:
  assumes "upload_run self file_list w valid"
  shows "spawned (snd (upload_workers (upload_start self valid) (upload_tasks valid w)))
         = spawned self + mset (map (upload_command self) valid)"
proof -
  have ord: "valid_order (completion_order w) (length valid)"
    using assms by (simp add: upload_run_def)
  have c: "upload_command (upload_start self valid) = upload_command self"
    by (intro ext upload_command_cong) (simp_all add: upload_start_def)
  have "map (\<lambda>(f, env). upload_command self f) (upload_tasks valid w)
        = map (upload_command self) (map ((!) valid) (completion_order w))"
    by (simp add: upload_tasks_def scheduled_def comp_def)
  then have "mset (map (\<lambda>(f, env). upload_command self f) (upload_tasks valid w))
        = image_mset (upload_command self) (mset (map ((!) valid) (completion_order w)))"
    by (simp only: mset_map)
  also have "\<dots> = mset (map (upload_command self) valid)"
    unfolding mset_scheduled [OF ord] by simp
  finally show ?thesis
    unfolding upload_workers_spawned c by (simp add: upload_start_def)
qed

lemma upload_run_errors_valid:
  assumes "upload_run self file_list w valid"
    "e \<in> set (failures (upload_outcomes (upload_tasks valid w)))"
  shows "\<exists>f \<in> set file_list. isfile w f \<and> (fst e = f \<or> fst e = str_path (Path f))"
proof -
  have v: "valid = filter (isfile w) file_list"
    and ord: "valid_order (completion_order w) (length valid)"
    using assms(1) by (simp_all add: upload_run_def)
  from assms(2) obtain out where out: "out \<in> set (upload_outcomes (upload_tasks valid w))"
    and e: "e = snd out"
    by (auto simp: failures_def)
  from out obtain t where t: "t \<in> set (upload_tasks valid w)"
    and o: "out = upload_outcome (fst t) (snd t)"
    by (auto simp: upload_outcomes_def)
  from scheduled_items [OF ord t [unfolded upload_tasks_def]]
  obtain i where "i < length valid" "t = (valid ! i, upload_task w i)" by blast
  then have "fst t \<in> set valid" by simp
  then have f: "fst t \<in> set file_list" "isfile w (fst t)" by (simp_all add: v)
  have "fst e = fst t \<or> fst e = str_path (Path (fst t))"
    unfolding e o by (rule upload_outcome_item)
  with f show ?thesis by blast
qed

section \<open>Names and destinations\<close>

lemma split_where_nonempty: "split_where P s \<noteq> []"
  by (induction s) (auto split: list.splits)

lemma split_where_no_separator:
  "piece \<in> set (split_where P s) \<Longrightarrow> c \<in> set piece \<Longrightarrow> \<not> P c"
proof (induction s arbitrary: piece)
  case Nil
  then show ?case by simp
next
  case (Cons a s)
  show ?case
  proof (cases "P a")
    case True
    with Cons show ?thesis by auto
  next
    case False
    obtain x xs where sp: "split_where P s = x # xs"
      using split_where_nonempty [of P s] by (cases "split_where P s") auto
    from Cons.prems(1) have "piece = a # x \<or> piece \<in> set xs"
      by (simp add: False sp)
    then show ?thesis
    proof
      assume "piece = a # x"
      with Cons.prems(2) have "c = a \<or> c \<in> set x" by simp
      then show ?thesis
        using False Cons.IH [of x] by (auto simp: sp)
    next
      assume "piece \<in> set xs"
      then show ?thesis using Cons.IH [of piece] Cons.prems(2) by (simp add: sp)
    qed
  qed
qed

lemma name_has_no_slash: "CHR ''/'' \<notin> set (name (Path s))"
proof
  assume a: "CHR ''/'' \<in> set (name (Path s))"
  then have ne: "parts (Path s) \<noteq> []" by (auto simp: name_def split: list.splits)
  then have "name (Path s) = last (parts (Path s))"
    by (cases "parts (Path s)" rule: rev_cases) (simp_all add: name_def)
  then have "name (Path s) \<in> set (parts (Path s))" using ne by simp
  then have "name (Path s) \<in> set (split_on CHR ''/'' (snd (splitroot s)))"
    by (simp add: Path_def split: prod.splits)
  from split_where_no_separator [OF this [unfolded split_on_def] a] show False by simp
qed

lemma rstrip_slash_end:
  "rstrip_slash p = [] \<or> last (rstrip_slash p) \<noteq> CHR ''/''"
proof (cases "dropWhile (\<lambda>c. c = CHR ''/'') (rev p) = []")
  case True
  then show ?thesis by (simp add: rstrip_slash_def)
next
  case False
  from hd_dropWhile [OF this] show ?thesis
    using False by (simp add: rstrip_slash_def last_rev)
qed

lemma all_same_replicate:
  "(\<forall>c \<in> set xs. c = a) \<Longrightarrow> xs = replicate (length xs) a"
  by (induction xs) auto

lemma rstrip_slash_rest:
  "\<exists>n. p = rstrip_slash p @ replicate n CHR ''/''"
proof -
  let ?P = "\<lambda>c. c = CHR ''/''"
  have "p = rev (takeWhile ?P (rev p) @ dropWhile ?P (rev p))"
    by (simp only: takeWhile_dropWhile_id rev_rev_ident)
  then have p: "p = rstrip_slash p @ rev (takeWhile ?P (rev p))"
    by (simp only: rev_append rstrip_slash_def)
  have "\<forall>c \<in> set (rev (takeWhile ?P (rev p))). c = CHR ''/''"
    by (auto dest: set_takeWhileD)
  then have "rev (takeWhile ?P (rev p)) = replicate (length (rev (takeWhile ?P (rev p)))) CHR ''/''"
    by (rule all_same_replicate)
  with p show ?thesis by metis
qed

lemma download_command_parts:
  "build_aws_download_command self k dest ! 3 = ''s3://'' @ bucket_name self @ ''/'' @ k"
  "build_aws_download_command self k dest ! 4 = str_path dest"
  by (simp_all add: build_aws_download_command_def Let_def numeral_3_eq_3 eval_nat_numeral
      split: option.splits)

lemma upload_command_destination:
  "upload_command self f ! 4 = ''s3://'' @ bucket_name self @ ''/'' @ upload_key self f"
  by (simp add: upload_command_def build_aws_command_def Let_def eval_nat_numeral
      split: option.splits)

lemma download_run_spawned:
  assumes "download_run self pfx pat w keys"
  shows "spawned (snd (download_workers (download_start (snd (list_s3_files self pfx pat w)) keys)
                         (download_tasks keys w)))
         = add_mset (build_aws_list_command self pfx) (spawned self) +
             mset (concat (map (\<lambda>(k, env). download_commands self k env)
                             (download_tasks keys w)))"
proof -
  define st0 where "st0 = download_start (snd (list_s3_files self pfx pat w)) keys"
  have eq: "map (\<lambda>(k, env). download_commands st0 k env) (download_tasks keys w)
        = map (\<lambda>(k, env). download_commands self k env) (download_tasks keys w)"
    by (rule download_commands_map)
       (simp_all add: st0_def download_start_def list_s3_files_state)
  have sp: "spawned st0 = add_mset (build_aws_list_command self pfx) (spawned self)"
    by (simp add: st0_def download_start_def list_s3_files_state)
  show ?thesis
    unfolding st0_def [symmetric] download_workers_spawned eq sp ..
qed

lemma download_run_command:
  assumes "download_run self pfx pat w keys" "i < length keys"
    "mkdir_error (download_task w i) = None"
  shows "build_aws_download_command self (keys ! i)
           (truediv (output_dir self) (name (Path (keys ! i))))
         \<in># spawned (snd (download_files self pfx pat w))"
proof -
  have "valid_order (completion_order w) (length keys)"
    using assms(1) by (simp add: download_run_def)
  then have "(keys ! i, download_task w i) \<in> set (download_tasks keys w)"
    unfolding download_tasks_def using assms(2) by (rule scheduled_mem)
  then have "set (download_commands self (keys ! i) (download_task w i))
             \<subseteq> set (concat (map (\<lambda>(k, env). download_commands self k env)
                                (download_tasks keys w)))"
    by force
  moreover have "build_aws_download_command self (keys ! i)
           (truediv (output_dir self) (name (Path (keys ! i))))
         \<in> set (download_commands self (keys ! i) (download_task w i))"
    by (simp add: download_commands_def assms(3))
  ultimately have "build_aws_download_command self (keys ! i)
           (truediv (output_dir self) (name (Path (keys ! i))))
         \<in> set (concat (map (\<lambda>(k, env). download_commands self k env)
                                (download_tasks keys w)))"
    by blast
  then have "build_aws_download_command self (keys ! i)
           (truediv (output_dir self) (name (Path (keys ! i))))
         \<in># mset (concat (map (\<lambda>(k, env). download_commands self k env)
                                (download_tasks keys w)))"
    by (simp only: set_mset_mset)
  then show ?thesis
    unfolding download_files_completed [OF assms(1)] snd_conv download_run_spawned [OF assms(1)]
    by (simp only: union_iff) blast
qed

lemma upload_run_command:
  assumes "upload_run self file_list w valid" "i < length valid"
  shows "upload_command self (valid ! i) \<in># spawned (snd (upload_files self file_list w))"
proof -
  have "valid ! i \<in> set valid" using assms(2) by simp
  then show ?thesis
    unfolding upload_files_completed [OF assms(1)] snd_conv upload_run_spawned [OF assms(1)]
    by simp
qed

section \<open>Splitting and joining\<close>

lemma split_where_field:
  "\<forall>x \<in> set u. \<not> P x \<Longrightarrow> P c \<Longrightarrow> split_where P (u @ c # rest) = u # split_where P rest"
  by (induction u) simp_all

lemma split_ws_field:
  "is_field u \<Longrightarrow> isspace c \<Longrightarrow> split_ws (u @ c # rest) = u # split_ws rest"
  by (simp add: split_ws_def is_field_def split_where_field)

lemma split_ws_space: "isspace c \<Longrightarrow> split_ws (c # rest) = split_ws rest"
  by (simp add: split_ws_def)

lemma split_ws_spaces: "split_ws (replicate n CHR '' '' @ rest) = split_ws rest"
  by (induction n) (simp_all add: split_ws_space isspace_def)

lemma split_ws_listing_line:
  assumes "is_field d" "is_field t" "is_field sz"
  shows "split_ws (listing_line d t pad sz key) = d # t # sz # split_ws key"
proof -
  have sp: "isspace CHR '' ''" by (simp add: isspace_def)
  have "listing_line d t pad sz key
        = d @ CHR '' '' # (t @ CHR '' '' # (replicate pad CHR '' '' @ (sz @ CHR '' '' # key)))"
    by (simp add: listing_line_def)
  then show ?thesis
    by (simp only: split_ws_field [OF assms(1) sp] split_ws_field [OF assms(2) sp]
        split_ws_spaces split_ws_field [OF assms(3) sp])
qed

lemma split_ws_fields: "piece \<in> set (split_ws s) \<Longrightarrow> is_field piece"
  using split_where_no_separator [of piece isspace s]
  by (auto simp: split_ws_def is_field_def)

lemma split_where_all_empty:
  "\<forall>c \<in> set s. P c \<Longrightarrow> \<forall>piece \<in> set (split_where P s). piece = []"
  by (induction s) simp_all

lemma split_ws_blank: "\<forall>c \<in> set s. isspace c \<Longrightarrow> split_ws s = []"
  using split_where_all_empty [of s isspace] by (auto simp: split_ws_def filter_empty_conv)

lemma strip_blank: "strip s = [] \<Longrightarrow> \<forall>c \<in> set s. isspace c"
proof -
  assume "strip s = []"
  then have "dropWhile isspace s = []"
    by (simp add: strip_def dropWhile_eq_Nil_conv) (metis dropWhile_eq_Nil_conv hd_dropWhile list.set_sel(1) set_rev)
  then show ?thesis by (simp add: dropWhile_eq_Nil_conv)
qed

lemma split_ws_strip: "split_ws s \<noteq> [] \<Longrightarrow> strip s \<noteq> []"
  using split_ws_blank [of s] strip_blank [of s] by blast

section \<open>No two spaces in a row\<close>

lemma consecutive_spaces_field:
  "is_field x \<Longrightarrow> consecutive_spaces (x @ s) = consecutive_spaces s"
proof (induction x)
  case Nil
  then show ?case by (simp add: is_field_def)
next
  case (Cons a x)
  then have a: "\<not> isspace a" by (simp add: is_field_def)
  show ?case
  proof (cases x)
    case Nil
    with a show ?thesis by (cases s) simp_all
  next
    case (Cons b cs)
    with Cons.prems have "is_field x" by (simp add: is_field_def)
    from Cons.IH [OF this] a show ?thesis by (simp add: Cons)
  qed
qed

lemma join_fields_start:
  "ws \<noteq> [] \<Longrightarrow> \<forall>w \<in> set ws. is_field w \<Longrightarrow>
     join '' '' ws \<noteq> [] \<and> \<not> isspace (hd (join '' '' ws))"
proof (induction "'' ''" ws rule: join.induct)
  case 1
  then show ?case by simp
next
  case (2 x)
  then show ?case by (cases x) (simp_all add: is_field_def)
next
  case (3 x y ys)
  then show ?case by (cases x) (simp_all add: is_field_def)
qed

lemma join_fields_no_consecutive_spaces:
  "\<forall>w \<in> set ws. is_field w \<Longrightarrow> \<not> consecutive_spaces (join '' '' ws)"
proof (induction "'' ''" ws rule: join.induct)
  case 1
  then show ?case by simp
next
  case (2 x)
  then have "is_field x" by simp
  from consecutive_spaces_field [OF this, of "[]"] show ?case by simp
next
  case (3 x y ys)
  then have x: "is_field x" and rest: "\<forall>w \<in> set (y # ys). is_field w" by simp_all
  from join_fields_start [OF _ rest] obtain c cs
    where j: "join '' '' (y # ys) = c # cs" and c: "\<not> isspace c"
    by (cases "join '' '' (y # ys)") auto
  have "\<not> consecutive_spaces (c # cs)" using 3(1) rest by (simp add: j)
  then have "\<not> consecutive_spaces (CHR '' '' # c # cs)" using c by simp
  then show ?case
    using consecutive_spaces_field [OF x, of "CHR '' '' # c # cs"] by (simp add: j)
qed

lemma rejoined_key:
  "\<not> consecutive_spaces (join '' '' (split_ws key))"
  by (rule join_fields_no_consecutive_spaces) (simp add: split_ws_fields)

section \<open>Counts of a dispatch run\<close>



section \<open>Exit codes\<close>

text \<open>
  C3. The specification gives exit code 1 to a run whose work list is empty. The
  downloader does not: when the listing of the bucket yields no object,
  \<^verbatim>\<open>download_files\<close> returns the dictionary with \<^verbatim>\<open>failed = 0\<close> and \<^verbatim>\<open>main\<close> exits with 0.
  The uploader's \<^verbatim>\<open>main\<close> exits with 1 when no path was given or matched, but with 0
  when every path it was given is filtered out as not being a file.
\<close>

theorem exit_code_of_empty_work_list:
  "new_downloader example_args empty_bucket = Inr example_downloader
   \<and> fst (list_s3_files example_downloader (arg_prefix example_args) (arg_pattern example_args)
          empty_bucket) = []
   \<and> download_main example_args empty_bucket = 0
   \<and> filter (isfile example_upload_world) [''gone.txt''] = []
   \<and> upload_main missing_file_args example_upload_world = 0"
  by (simp add: download_main_def new_downloader_def download_files_def list_s3_files_def
      example_args_def example_downloader_def empty_bucket_def example_world_def aws_ok_def
      check_aws_cli_def subprocess_run_def strip_def split_on_def
      upload_main_def new_uploader_def upload_files_def missing_file_args_def
      example_upload_args_def example_upload_world_def dedup_def truthy_def)

section \<open>The empty work list\<close>

text \<open>
  C2, as stated, fails: the result for an empty work list has no elapsed time at all,
  so it is not the result with an elapsed time of zero. Shown for the empty bucket and
  for an upload of no path.
\<close>

theorem empty_work_list_has_no_elapsed_time:
  "fst (download_files example_downloader [] None empty_bucket)
     \<noteq> Inr \<lparr>success = 0, failed = 0, errors = [], total_time = Some 0\<rparr> \<and>
   fst (upload_files example_uploader [] example_upload_world)
     \<noteq> Inr \<lparr>success = 0, failed = 0, errors = [], total_time = Some 0\<rparr>"
  by (simp add: download_files_def list_s3_files_def empty_bucket_def example_world_def
      subprocess_run_def strip_def split_on_def upload_files_def)

text \<open>
  C2, amended. When the work list is empty, the dispatcher returns the dictionary with
  \<open>success = 0\<close>, \<open>failed = 0\<close>, an empty error list and no elapsed time. No transfer is
  started and the counters, the total and the progress lines stay as they were: the
  uploader's state is unchanged, the downloader's state differs only by the listing
  command it has run.
\<close>

theorem empty_work_list_result:
  "(fst (list_s3_files self pfx pat w) = [] \<longrightarrow>
      download_files self pfx pat w =
        (Inr \<lparr>success = 0, failed = 0, errors = [], total_time = None\<rparr>,
         self\<lparr>spawned := add_mset (build_aws_list_command self pfx) (spawned self)\<rparr>)) \<and>
   (filter (isfile uw) file_list = [] \<longrightarrow>
      upload_files uself file_list uw =
        (Inr \<lparr>success = 0, failed = 0, errors = [], total_time = None\<rparr>, uself))"
proof (intro conjI impI)
  assume e: "fst (list_s3_files self pfx pat w) = []"
  obtain ks s1 where l: "list_s3_files self pfx pat w = (ks, s1)"
    by (cases "list_s3_files self pfx pat w")
  have "ks = []" using e by (simp add: l)
  moreover have "s1 = self\<lparr>spawned := add_mset (build_aws_list_command self pfx) (spawned self)\<rparr>"
    using list_s3_files_state [of self pfx pat w] by (simp add: l)
  ultimately show "download_files self pfx pat w =
        (Inr \<lparr>success = 0, failed = 0, errors = [], total_time = None\<rparr>,
         self\<lparr>spawned := add_mset (build_aws_list_command self pfx) (spawned self)\<rparr>)"
    by (simp add: download_files_def l)
next
  assume "filter (isfile uw) file_list = []"
  then show "upload_files uself file_list uw =
        (Inr \<lparr>success = 0, failed = 0, errors = [], total_time = None\<rparr>, uself)"
    by (simp add: upload_files_def)
qed

theorem empty_work_list_result_witness:
  "fst (list_s3_files example_downloader [] None empty_bucket) = [] \<and>
   filter (isfile example_upload_world) [''gone.txt''] = [] \<and>
   download_files example_downloader [] None empty_bucket =
     (Inr \<lparr>success = 0, failed = 0, errors = [], total_time = None\<rparr>,
      example_downloader\<lparr>spawned :=
        {#[''aws'', ''s3'', ''ls'', ''s3://bk/'', ''--recursive''], [''aws'', ''--version'']#}\<rparr>) \<and>
   upload_files example_uploader [''gone.txt''] example_upload_world =
     (Inr \<lparr>success = 0, failed = 0, errors = [], total_time = None\<rparr>, example_uploader)"
proof -
  have d: "fst (list_s3_files example_downloader [] None empty_bucket) = []"
    by (simp add: list_s3_files_def empty_bucket_def example_world_def subprocess_run_def
        strip_def split_on_def)
  have u: "filter (isfile example_upload_world) [''gone.txt''] = []"
    by (simp add: example_upload_world_def)
  have c: "build_aws_list_command example_downloader []
             = [''aws'', ''s3'', ''ls'', ''s3://bk/'', ''--recursive'']"
    "spawned example_downloader = {#[''aws'', ''--version'']#}"
    by (simp_all add: build_aws_list_command_def example_downloader_def)
  from empty_work_list_result [of example_downloader "[]" None empty_bucket
      example_upload_world "[''gone.txt'']" example_uploader] d u
  show ?thesis by (simp add: c)
qed

section \<open>Isolation of per-item errors\<close>



section \<open>The timeout of one transfer\<close>



section \<open>Progress percentages\<close>

text \<open>
  C6, as the specification states it, says that the first completion out of \<open>N\<close> reports
  \<open>1/N * 100\<close>, never 0. The percentage is a double and is printed with the format
  \<^verbatim>\<open>5.1f\<close>: for the first completion out of 4000 the code computes the double
  \<open>3602879701896397 / 2\<^sup>5\<^sup>7\<close>, which is not \<open>1/40\<close>, and prints \<^verbatim>\<open>0.0\<close>, in both
  directions and also when that first completion is a failure.
\<close>

theorem first_of_4000_is_reported_as_zero:
  "download_progress (example_downloader\<lparr>total_files := 4000, downloaded_count := 1\<rparr>)
     = Inr (3602879701896397 / 144115188075855872) \<and>
   printed (snd (count_downloaded (example_downloader\<lparr>total_files := 4000\<rparr>))) = [0] \<and>
   printed (snd (count_download_failed (example_downloader\<lparr>total_files := 4000\<rparr>))) = [0] \<and>
   printed (snd (count_uploaded (example_uploader\<lparr>total_files := 4000\<rparr>))) = [0] \<and>
   printed (snd (count_upload_failed (example_uploader\<lparr>total_files := 4000\<rparr>))) = [0]"
proof -
  have v: "float_mul (true_divide 1 4000) 100 = 3602879701896397 / 144115188075855872"
    by code_simp
  have z: "format_1f (3602879701896397 / 144115188075855872) = 0"
    by code_simp
  show ?thesis
    by (simp add: download_progress_def upload_progress_def count_downloaded_def
        count_download_failed_def count_uploaded_def count_upload_failed_def
        example_downloader_def example_uploader_def v z)
qed

text \<open>
  C6, amended. Recording a success or a failure adds one to that counter, leaves the other
  one, computes the double \<open>(succeeded + failed) / total * 100\<close> from the incremented
  state (a division and a multiplication of doubles, each rounded to nearest) and prints
  it rounded to one decimal place. In a run over \<open>N\<close> items the numbers printed are those
  of \<open>1/N\<close>, \<open>2/N\<close>, ..., \<open>N/N\<close>: the percentage computed at the first completion is
  positive, what is printed for it is its rounding to one decimal place, which is not
  negative and may be \<^verbatim>\<open>0.0\<close>, and the last completion prints \<^verbatim>\<open>100.0\<close>.
\<close>

theorem progress_from_incremented_state:
  "(total_files self \<noteq> 0 \<longrightarrow>
      download_progress self =
        Inr (float_mul (true_divide (downloaded_count self + failed_count self)
                          (total_files self)) 100) \<and>
      count_downloaded self =
        (None, self\<lparr>downloaded_count := downloaded_count self + 1,
                     printed := printed self @
                       [format_1f (float_mul (true_divide
                          ((downloaded_count self + 1) + failed_count self)
                          (total_files self)) 100)]\<rparr>) \<and>
      count_download_failed self =
        (None, self\<lparr>failed_count := failed_count self + 1,
                     printed := printed self @
                       [format_1f (float_mul (true_divide
                          (downloaded_count self + (failed_count self + 1))
                          (total_files self)) 100)]\<rparr>)) \<and>
   (total_files uself \<noteq> 0 \<longrightarrow>
      upload_progress uself =
        Inr (float_mul (true_divide (uploaded_count uself + failed_count uself)
                          (total_files uself)) 100) \<and>
      count_uploaded uself =
        (None, uself\<lparr>uploaded_count := uploaded_count uself + 1,
                      printed := printed uself @
                        [format_1f (float_mul (true_divide
                           ((uploaded_count uself + 1) + failed_count uself)
                           (total_files uself)) 100)]\<rparr>) \<and>
      count_upload_failed uself =
        (None, uself\<lparr>failed_count := failed_count uself + 1,
                      printed := printed uself @
                        [format_1f (float_mul (true_divide
                           (uploaded_count uself + (failed_count uself + 1))
                           (total_files uself)) 100)]\<rparr>)) \<and>
   (download_run dself pfx pat w keys \<longrightarrow>
      (\<exists>res st new.
         download_files dself pfx pat w = (Inr res, st) \<and>
         printed st = printed dself @ new \<and>
         new = map (\<lambda>j. format_1f (float_mul (true_divide (int (Suc j)) (int (length keys))) 100))
                 [0..<length keys] \<and>
         hd new = format_1f (float_mul (true_divide 1 (int (length keys))) 100) \<and>
         0 < float_mul (true_divide 1 (int (length keys))) 100 \<and>
         0 \<le> hd new \<and> last new = 100)) \<and>
   (upload_run urun file_list uw valid \<longrightarrow>
      (\<exists>res st new.
         upload_files urun file_list uw = (Inr res, st) \<and>
         printed st = printed urun @ new \<and>
         new = map (\<lambda>j. format_1f (float_mul (true_divide (int (Suc j)) (int (length valid))) 100))
                 [0..<length valid] \<and>
         hd new = format_1f (float_mul (true_divide 1 (int (length valid))) 100) \<and>
         0 < float_mul (true_divide 1 (int (length valid))) 100 \<and>
         0 \<le> hd new \<and> last new = 100))"
proof (intro conjI impI)
  assume "total_files self \<noteq> 0"
  then show "download_progress self =
        Inr (float_mul (true_divide (downloaded_count self + failed_count self)
                          (total_files self)) 100)"
    and "count_downloaded self =
        (None, self\<lparr>downloaded_count := downloaded_count self + 1,
                     printed := printed self @
                       [format_1f (float_mul (true_divide
                          ((downloaded_count self + 1) + failed_count self)
                          (total_files self)) 100)]\<rparr>)"
    and "count_download_failed self =
        (None, self\<lparr>failed_count := failed_count self + 1,
                     printed := printed self @
                       [format_1f (float_mul (true_divide
                          (downloaded_count self + (failed_count self + 1))
                          (total_files self)) 100)]\<rparr>)"
    by (simp_all add: count_downloaded_def count_download_failed_def download_progress_def
        Let_def)
next
  assume "total_files uself \<noteq> 0"
  then show "upload_progress uself =
        Inr (float_mul (true_divide (uploaded_count uself + failed_count uself)
                          (total_files uself)) 100)"
    and "count_uploaded uself =
        (None, uself\<lparr>uploaded_count := uploaded_count uself + 1,
                      printed := printed uself @
                        [format_1f (float_mul (true_divide
                           ((uploaded_count uself + 1) + failed_count uself)
                           (total_files uself)) 100)]\<rparr>)"
    and "count_upload_failed uself =
        (None, uself\<lparr>failed_count := failed_count uself + 1,
                      printed := printed uself @
                        [format_1f (float_mul (true_divide
                           (uploaded_count uself + (failed_count uself + 1))
                           (total_files uself)) 100)]\<rparr>)"
    by (simp_all add: count_uploaded_def count_upload_failed_def upload_progress_def Let_def)
next
  assume run: "download_run dself pfx pat w keys"
  let ?outs = "download_outcomes (download_tasks keys w)"
  have ne: "length keys \<noteq> 0" using run by (simp add: download_run_def)
  have pos: "0 < float_mul (true_divide 1 (int (length keys))) 100"
    using ne by (intro percent_value_pos) simp_all
  note fl = percent_first_last [OF ne, unfolded percent_shown_def]
  show "\<exists>res st new.
         download_files dself pfx pat w = (Inr res, st) \<and>
         printed st = printed dself @ new \<and>
         new = map (\<lambda>j. format_1f (float_mul (true_divide (int (Suc j)) (int (length keys))) 100))
                 [0..<length keys] \<and>
         hd new = format_1f (float_mul (true_divide 1 (int (length keys))) 100) \<and>
         0 < float_mul (true_divide 1 (int (length keys))) 100 \<and>
         0 \<le> hd new \<and> last new = 100"
  proof (intro exI conjI)
    show "download_files dself pfx pat w =
      (Inr \<lparr>success = int (length (filter fst ?outs)), failed = int (length (failures ?outs)),
            errors = failures ?outs, total_time = Some (end_time w - start_time w)\<rparr>,
       snd (download_workers (download_start (snd (list_s3_files dself pfx pat w)) keys)
              (download_tasks keys w)))"
      by (rule download_files_completed [OF run])
    show "printed (snd (download_workers (download_start (snd (list_s3_files dself pfx pat w)) keys)
                          (download_tasks keys w)))
          = printed dself @
            map (\<lambda>j. format_1f (float_mul (true_divide (int (Suc j)) (int (length keys))) 100))
              [0..<length keys]"
      by (rule download_run_printed [OF run, unfolded percent_shown_def])
    show "0 \<le> hd (map (\<lambda>j. format_1f (float_mul (true_divide (int (Suc j)) (int (length keys))) 100))
                    [0..<length keys])"
      unfolding fl(1) using pos by (intro format_1f_nonneg) simp
  qed (rule refl fl pos)+
next
  assume run: "upload_run urun file_list uw valid"
  let ?outs = "upload_outcomes (upload_tasks valid uw)"
  have ne: "length valid \<noteq> 0" using run by (simp add: upload_run_def)
  have pos: "0 < float_mul (true_divide 1 (int (length valid))) 100"
    using ne by (intro percent_value_pos) simp_all
  note fl = percent_first_last [OF ne, unfolded percent_shown_def]
  show "\<exists>res st new.
         upload_files urun file_list uw = (Inr res, st) \<and>
         printed st = printed urun @ new \<and>
         new = map (\<lambda>j. format_1f (float_mul (true_divide (int (Suc j)) (int (length valid))) 100))
                 [0..<length valid] \<and>
         hd new = format_1f (float_mul (true_divide 1 (int (length valid))) 100) \<and>
         0 < float_mul (true_divide 1 (int (length valid))) 100 \<and>
         0 \<le> hd new \<and> last new = 100"
  proof (intro exI conjI)
    show "upload_files urun file_list uw =
      (Inr \<lparr>success = int (length (filter fst ?outs)), failed = int (length (failures ?outs)),
            errors = failures ?outs, total_time = Some (end_time uw - start_time uw)\<rparr>,
       snd (upload_workers (upload_start urun valid) (upload_tasks valid uw)))"
      by (rule upload_files_completed [OF run])
    show "printed (snd (upload_workers (upload_start urun valid) (upload_tasks valid uw)))
          = printed urun @
            map (\<lambda>j. format_1f (float_mul (true_divide (int (Suc j)) (int (length valid))) 100))
              [0..<length valid]"
      by (rule upload_run_printed [OF run, unfolded percent_shown_def])
    show "0 \<le> hd (map (\<lambda>j. format_1f (float_mul (true_divide (int (Suc j)) (int (length valid))) 100))
                    [0..<length valid])"
      unfolding fl(1) using pos by (intro format_1f_nonneg) simp
  qed (rule refl fl pos)+
qed

theorem progress_from_incremented_state_witness:
  "total_files (example_downloader\<lparr>total_files := 3\<rparr>) \<noteq> 0 \<and>
   count_downloaded (example_downloader\<lparr>total_files := 3\<rparr>) =
     (None, example_downloader\<lparr>total_files := 3, downloaded_count := 1,
                               printed := [333 / 10]\<rparr>) \<and>
   total_files (example_uploader\<lparr>total_files := 2\<rparr>) \<noteq> 0 \<and>
   count_upload_failed (example_uploader\<lparr>total_files := 2\<rparr>) =
     (None, example_uploader\<lparr>total_files := 2, failed_count := 1, printed := [50]\<rparr>) \<and>
   download_run example_downloader [] None example_world example_keys \<and>
   (\<exists>res st. download_files example_downloader [] None example_world = (Inr res, st) \<and>
      printed st = [333 / 10, 667 / 10, 100]) \<and>
   upload_run example_uploader example_files example_upload_world example_valid_files \<and>
   (\<exists>res st. upload_files example_uploader example_files example_upload_world = (Inr res, st) \<and>
      printed st = [50, 100])"
proof -
  let ?d = "example_downloader\<lparr>total_files := 3\<rparr>"
  let ?u = "example_uploader\<lparr>total_files := 2\<rparr>"
  have d1: "total_files ?d \<noteq> 0" and u1: "total_files ?u \<noteq> 0" by simp_all
  have v: "format_1f (float_mul (true_divide 1 3) 100) = 333 / 10"
    "format_1f (float_mul (true_divide 1 2) 100) = 50"
    by code_simp+
  have m: "map (\<lambda>j. format_1f (float_mul (true_divide (int (Suc j)) (int (length example_keys))) 100))
             [0..<length example_keys] = [333 / 10, 667 / 10, 100]"
    "map (\<lambda>j. format_1f (float_mul (true_divide (int (Suc j)) (int (length example_valid_files))) 100))
             [0..<length example_valid_files] = [50, 100]"
    by code_simp+
  have p: "printed example_downloader = []" "printed example_uploader = []"
    by (simp_all add: example_downloader_def example_uploader_def)
  note T = progress_from_incremented_state [of ?d ?u example_downloader "[]" None
      example_world example_keys example_uploader example_files example_upload_world
      example_valid_files]
  have a: "count_downloaded ?d =
     (None, example_downloader\<lparr>total_files := 3, downloaded_count := 1,
                               printed := [333 / 10]\<rparr>)"
    using T [THEN conjunct1, THEN mp, OF d1, THEN conjunct2, THEN conjunct1]
    by (simp add: example_downloader_def v)
  have b: "count_upload_failed ?u =
     (None, example_uploader\<lparr>total_files := 2, failed_count := 1, printed := [50]\<rparr>)"
    using T [THEN conjunct2, THEN conjunct1, THEN mp, OF u1, THEN conjunct2, THEN conjunct2]
    by (simp add: example_uploader_def v)
  have c: "\<exists>res st. download_files example_downloader [] None example_world = (Inr res, st) \<and>
      printed st = [333 / 10, 667 / 10, 100]"
    using T [THEN conjunct2, THEN conjunct2, THEN conjunct1, THEN mp, OF example_download_run]
    unfolding m p by auto
  have d: "\<exists>res st. upload_files example_uploader example_files example_upload_world
                      = (Inr res, st) \<and> printed st = [50, 100]"
    using T [THEN conjunct2, THEN conjunct2, THEN conjunct2, THEN mp, OF example_upload_run]
    unfolding m p by auto
  show ?thesis
    using d1 a u1 b example_download_run c example_upload_run d by (intro conjI)
qed

section \<open>The invariant of the counters\<close>



section \<open>Paths that are not files\<close>

text \<open>
  C8. \<^verbatim>\<open>upload_files\<close> dispatches only the paths for which \<^verbatim>\<open>os.path.isfile\<close> holds. If
  there is none, it returns \<open>success = 0\<close>, \<open>failed = 0\<close> and no errors, and its state is
  unchanged. Otherwise the total is the number of the remaining paths, which is also
  \<open>success + failed\<close> and the divisor of the percentages printed; the commands started
  are, whatever their order, one for each remaining path and no other; every entry of
  the error list names a remaining
  path, as given or as \<^verbatim>\<open>str(Path(...))\<close> writes it. Provided that rewriting by
  \<^verbatim>\<open>pathlib\<close> keeps a file a file, a path that is not a file is the source of no command
  and is in no entry of the error list.
\<close>

theorem upload_skips_paths_that_are_not_files:
  "(filter (isfile w) file_list = [] \<longrightarrow>
      upload_files self file_list w =
        (Inr \<lparr>success = 0, failed = 0, errors = [], total_time = None\<rparr>, self)) \<and>
   (upload_run self file_list w valid \<longrightarrow>
      (\<exists>res st.
         upload_files self file_list w = (Inr res, st) \<and>
         valid = filter (isfile w) file_list \<and>
         total_files st = int (length valid) \<and>
         success res + failed res = int (length valid) \<and>
         printed st = printed self @
           map (\<lambda>j. format_1f (float_mul (true_divide (int (Suc j)) (int (length valid))) 100))
             [0..<length valid] \<and>
         spawned st = spawned self + mset (map (upload_command self) valid) \<and>
         size (spawned st) = size (spawned self) + length valid \<and>
         (\<forall>e \<in> set (errors res).
            \<exists>f \<in> set file_list. isfile w f \<and> (fst e = f \<or> fst e = str_path (Path f))) \<and>
         (\<forall>p. \<not> isfile w p \<and> (\<forall>f. isfile w f \<longrightarrow> isfile w (str_path (Path f))) \<longrightarrow>
            p \<notin> fst ` set (errors res) \<and>
            (\<forall>f \<in> set valid. upload_command self f ! 3 \<noteq> p))))"
proof (intro conjI impI)
  assume "filter (isfile w) file_list = []"
  then show "upload_files self file_list w =
        (Inr \<lparr>success = 0, failed = 0, errors = [], total_time = None\<rparr>, self)"
    by (simp add: upload_files_def)
next
  assume run: "upload_run self file_list w valid"
  let ?outs = "upload_outcomes (upload_tasks valid w)"
  let ?st = "snd (upload_workers (upload_start self valid) (upload_tasks valid w))"
  have v: "valid = filter (isfile w) file_list"
    and ord: "valid_order (completion_order w) (length valid)"
    using run by (simp_all add: upload_run_def)
  have total: "total_files ?st = int (length valid)"
    by (simp add: upload_start_def)
  have sp: "spawned ?st = spawned self + mset (map (upload_command self) valid)"
    by (rule upload_run_spawned [OF run])
  have len: "size (spawned ?st) = size (spawned self) + length valid"
    unfolding sp by simp
  have errs: "\<forall>e \<in> set (failures ?outs).
      \<exists>f \<in> set file_list. isfile w f \<and> (fst e = f \<or> fst e = str_path (Path f))"
    using upload_run_errors_valid [OF run] by blast
  have absent: "\<forall>p. \<not> isfile w p \<and> (\<forall>f. isfile w f \<longrightarrow> isfile w (str_path (Path f))) \<longrightarrow>
            p \<notin> fst ` set (failures ?outs) \<and>
            (\<forall>f \<in> set valid. upload_command self f ! 3 \<noteq> p)"
  proof (intro allI impI conjI ballI)
    fix p
    assume h: "\<not> isfile w p \<and> (\<forall>f. isfile w f \<longrightarrow> isfile w (str_path (Path f)))"
    show "p \<notin> fst ` set (failures ?outs)"
    proof
      assume "p \<in> fst ` set (failures ?outs)"
      then obtain e where "e \<in> set (failures ?outs)" "p = fst e" by blast
      with errs obtain f where "isfile w f" "p = f \<or> p = str_path (Path f)" by blast
      with h show False by blast
    qed
    fix f
    assume "f \<in> set valid"
    then have "isfile w f" by (simp add: v)
    with h have "isfile w (str_path (Path f))" by blast
    with h show "upload_command self f ! 3 \<noteq> p"
      unfolding upload_command_source by blast
  qed
  show "\<exists>res st.
         upload_files self file_list w = (Inr res, st) \<and>
         valid = filter (isfile w) file_list \<and>
         total_files st = int (length valid) \<and>
         success res + failed res = int (length valid) \<and>
         printed st = printed self @
           map (\<lambda>j. format_1f (float_mul (true_divide (int (Suc j)) (int (length valid))) 100))
             [0..<length valid] \<and>
         spawned st = spawned self + mset (map (upload_command self) valid) \<and>
         size (spawned st) = size (spawned self) + length valid \<and>
         (\<forall>e \<in> set (errors res).
            \<exists>f \<in> set file_list. isfile w f \<and> (fst e = f \<or> fst e = str_path (Path f))) \<and>
         (\<forall>p. \<not> isfile w p \<and> (\<forall>f. isfile w f \<longrightarrow> isfile w (str_path (Path f))) \<longrightarrow>
            p \<notin> fst ` set (errors res) \<and>
            (\<forall>f \<in> set valid. upload_command self f ! 3 \<noteq> p))"
  proof (intro exI conjI)
    show "upload_files self file_list w =
      (Inr \<lparr>success = int (length (filter fst ?outs)), failed = int (length (failures ?outs)),
            errors = failures ?outs, total_time = Some (end_time w - start_time w)\<rparr>, ?st)"
      by (rule upload_files_completed [OF run])
    show "valid = filter (isfile w) file_list" by (rule v)
    show "total_files ?st = int (length valid)" by (rule total)
    show "printed ?st = printed self @
           map (\<lambda>j. format_1f (float_mul (true_divide (int (Suc j)) (int (length valid))) 100))
             [0..<length valid]"
      by (rule upload_run_printed [OF run, unfolded percent_shown_def])
    show "spawned ?st = spawned self + mset (map (upload_command self) valid)"
      by (rule sp)
    show "size (spawned ?st) = size (spawned self) + length valid" by (rule len)
  qed (simp_all add: upload_run_sum [OF run] errs absent)
qed

theorem upload_skips_paths_that_are_not_files_witness:
  "filter (isfile example_upload_world) [''gone.txt''] = [] \<and>
   upload_files example_uploader [''gone.txt''] example_upload_world =
     (Inr \<lparr>success = 0, failed = 0, errors = [], total_time = None\<rparr>, example_uploader) \<and>
   upload_run example_uploader example_files example_upload_world example_valid_files \<and>
   \<not> isfile example_upload_world ''gone.txt'' \<and>
   (\<exists>res st. upload_files example_uploader example_files example_upload_world = (Inr res, st) \<and>
      total_files st = 2 \<and> success res + failed res = 2 \<and>
      size (spawned st) = size (spawned example_uploader) + 2 \<and>
      ''gone.txt'' \<notin> fst ` set (errors res))"
proof -
  have e: "filter (isfile example_upload_world) [''gone.txt''] = []"
    and g: "\<not> isfile example_upload_world ''gone.txt''"
    by (simp_all add: example_upload_world_def)
  have n: "\<forall>f. isfile example_upload_world f
               \<longrightarrow> isfile example_upload_world (str_path (Path f))"
    by (auto simp: example_upload_world_def str_path_def Path_def splitroot_def split_on_def)
  have k: "length example_valid_files = 2" by (simp add: example_valid_files_def)
  note A = upload_skips_paths_that_are_not_files [of example_upload_world "[''gone.txt'']"
      example_uploader example_valid_files, THEN conjunct1, THEN mp, OF e]
  note B = upload_skips_paths_that_are_not_files [of example_upload_world example_files
      example_uploader example_valid_files, THEN conjunct2, THEN mp, OF example_upload_run,
      unfolded k]
  from B obtain res st where
    r: "upload_files example_uploader example_files example_upload_world = (Inr res, st)"
    and t: "total_files st = int 2" and s: "success res + failed res = int 2"
    and l: "size (spawned st) = size (spawned example_uploader) + 2"
    and a: "\<forall>p. \<not> isfile example_upload_world p \<and>
                 (\<forall>f. isfile example_upload_world f
                    \<longrightarrow> isfile example_upload_world (str_path (Path f))) \<longrightarrow>
            p \<notin> fst ` set (errors res) \<and>
            (\<forall>f \<in> set example_valid_files. upload_command example_uploader f ! 3 \<noteq> p)"
    by blast
  from a g n have "''gone.txt'' \<notin> fst ` set (errors res)" by blast
  with r t s l have "\<exists>res st.
      upload_files example_uploader example_files example_upload_world = (Inr res, st) \<and>
      total_files st = 2 \<and> success res + failed res = 2 \<and>
      size (spawned st) = size (spawned example_uploader) + 2 \<and>
      ''gone.txt'' \<notin> fst ` set (errors res)"
    by auto
  with e A example_upload_run g show ?thesis by (intro conjI)
qed

section \<open>Destinations\<close>

text \<open>
  C9. The S3 key of an uploaded file is the final component of its path, preceded by
  the uploader's prefix and a slash when that prefix is not empty; the uploader's prefix
  is the given prefix without its trailing slashes. A downloaded key is written to the
  output directory joined with the final component of the key. That component contains
  no slash, so nothing of the directories of the item is kept, and two items with the
  same final component have the same destination. A run does not notice this: it starts
  the transfer of both items, each from its own source, to that one destination.
\<close>

theorem destination_is_the_final_component:
  "upload_key self f =
     (if s3_prefix self = [] then name (Path f) else s3_prefix self @ ''/'' @ name (Path f)) \<and>
   (new_uploader args uw = Inr self \<longrightarrow>
      s3_prefix self = rstrip_slash (upl_prefix args) \<and>
      (\<exists>n. upl_prefix args = s3_prefix self @ replicate n CHR ''/'') \<and>
      (s3_prefix self = [] \<or> last (s3_prefix self) \<noteq> CHR ''/'')) \<and>
   upload_command self f ! 4 = ''s3://'' @ bucket_name self @ ''/'' @ upload_key self f \<and>
   (mkdir_error env = None \<longrightarrow>
      download_commands dself k env =
        [build_aws_download_command dself k (truediv (output_dir dself) (name (Path k)))]) \<and>
   build_aws_download_command dself k (truediv (output_dir dself) (name (Path k))) ! 4 =
     str_path (truediv (output_dir dself) (name (Path k))) \<and>
   CHR ''/'' \<notin> set (name (Path f)) \<and>
   (name (Path k) = name (Path k') \<longrightarrow>
      truediv (output_dir dself) (name (Path k)) = truediv (output_dir dself) (name (Path k'))) \<and>
   (name (Path f) = name (Path f') \<longrightarrow> upload_key self f = upload_key self f') \<and>
   (download_run drun pfx pat w keys \<and> i < length keys \<and> j < length keys \<and>
    mkdir_error (download_task w i) = None \<and> mkdir_error (download_task w j) = None \<and>
    name (Path (keys ! i)) = name (Path (keys ! j)) \<longrightarrow>
      (\<exists>ci cj.
         ci \<in># spawned (snd (download_files drun pfx pat w)) \<and>
         cj \<in># spawned (snd (download_files drun pfx pat w)) \<and>
         ci ! 3 = ''s3://'' @ bucket_name drun @ ''/'' @ keys ! i \<and>
         cj ! 3 = ''s3://'' @ bucket_name drun @ ''/'' @ keys ! j \<and>
         ci ! 4 = str_path (truediv (output_dir drun) (name (Path (keys ! i)))) \<and>
         cj ! 4 = ci ! 4)) \<and>
   (upload_run urun file_list uw2 valid \<and> i2 < length valid \<and> j2 < length valid \<and>
    name (Path (valid ! i2)) = name (Path (valid ! j2)) \<longrightarrow>
      (\<exists>ci cj.
         ci \<in># spawned (snd (upload_files urun file_list uw2)) \<and>
         cj \<in># spawned (snd (upload_files urun file_list uw2)) \<and>
         ci ! 3 = str_path (Path (valid ! i2)) \<and>
         cj ! 3 = str_path (Path (valid ! j2)) \<and>
         ci ! 4 = ''s3://'' @ bucket_name urun @ ''/'' @ upload_key urun (valid ! i2) \<and>
         cj ! 4 = ci ! 4))"
proof (intro conjI impI)
  show "upload_key self f =
     (if s3_prefix self = [] then name (Path f) else s3_prefix self @ ''/'' @ name (Path f))"
    by (simp add: upload_key_def Let_def)
  show "upload_command self f ! 4 = ''s3://'' @ bucket_name self @ ''/'' @ upload_key self f"
    by (rule upload_command_destination)
  show "build_aws_download_command dself k (truediv (output_dir dself) (name (Path k))) ! 4 =
     str_path (truediv (output_dir dself) (name (Path k)))"
    by (rule download_command_parts)
  show "CHR ''/'' \<notin> set (name (Path f))" by (rule name_has_no_slash)
next
  assume "new_uploader args uw = Inr self"
  then have p: "s3_prefix self = rstrip_slash (upl_prefix args)"
    by (auto simp: new_uploader_def split: option.splits)
  show "s3_prefix self = rstrip_slash (upl_prefix args)" by (rule p)
  show "\<exists>n. upl_prefix args = s3_prefix self @ replicate n CHR ''/''"
    unfolding p by (rule rstrip_slash_rest)
  show "s3_prefix self = [] \<or> last (s3_prefix self) \<noteq> CHR ''/''"
    unfolding p by (rule rstrip_slash_end)
next
  assume "mkdir_error env = None"
  then show "download_commands dself k env =
        [build_aws_download_command dself k (truediv (output_dir dself) (name (Path k)))]"
    by (simp add: download_commands_def)
next
  assume "name (Path k) = name (Path k')"
  then show "truediv (output_dir dself) (name (Path k))
             = truediv (output_dir dself) (name (Path k'))"
    by simp
next
  assume "name (Path f) = name (Path f')"
  then show "upload_key self f = upload_key self f'"
    by (simp add: upload_key_def Let_def)
next
  assume h: "download_run drun pfx pat w keys \<and> i < length keys \<and> j < length keys \<and>
    mkdir_error (download_task w i) = None \<and> mkdir_error (download_task w j) = None \<and>
    name (Path (keys ! i)) = name (Path (keys ! j))"
  then have run: "download_run drun pfx pat w keys" and i: "i < length keys"
    and j: "j < length keys" and mi: "mkdir_error (download_task w i) = None"
    and mj: "mkdir_error (download_task w j) = None"
    and n: "name (Path (keys ! j)) = name (Path (keys ! i))"
    by simp_all
  let ?dest = "truediv (output_dir drun) (name (Path (keys ! i)))"
  let ?ci = "build_aws_download_command drun (keys ! i) ?dest"
  let ?cj = "build_aws_download_command drun (keys ! j) ?dest"
  have ci: "?ci \<in># spawned (snd (download_files drun pfx pat w))"
    by (rule download_run_command [OF run i mi])
  have cj: "?cj \<in># spawned (snd (download_files drun pfx pat w))"
    using download_run_command [OF run j mj] by (simp add: n)
  show "\<exists>ci cj.
         ci \<in># spawned (snd (download_files drun pfx pat w)) \<and>
         cj \<in># spawned (snd (download_files drun pfx pat w)) \<and>
         ci ! 3 = ''s3://'' @ bucket_name drun @ ''/'' @ keys ! i \<and>
         cj ! 3 = ''s3://'' @ bucket_name drun @ ''/'' @ keys ! j \<and>
         ci ! 4 = str_path (truediv (output_dir drun) (name (Path (keys ! i)))) \<and>
         cj ! 4 = ci ! 4"
  proof (intro exI conjI)
    show "?ci \<in># spawned (snd (download_files drun pfx pat w))" by (rule ci)
    show "?cj \<in># spawned (snd (download_files drun pfx pat w))" by (rule cj)
  qed (simp_all only: download_command_parts)
next
  assume h: "upload_run urun file_list uw2 valid \<and> i2 < length valid \<and> j2 < length valid \<and>
    name (Path (valid ! i2)) = name (Path (valid ! j2))"
  then have run: "upload_run urun file_list uw2 valid" and i: "i2 < length valid"
    and j: "j2 < length valid"
    and n: "name (Path (valid ! j2)) = name (Path (valid ! i2))"
    by simp_all
  have key: "upload_key urun (valid ! j2) = upload_key urun (valid ! i2)"
    by (simp add: upload_key_def Let_def n)
  show "\<exists>ci cj.
         ci \<in># spawned (snd (upload_files urun file_list uw2)) \<and>
         cj \<in># spawned (snd (upload_files urun file_list uw2)) \<and>
         ci ! 3 = str_path (Path (valid ! i2)) \<and>
         cj ! 3 = str_path (Path (valid ! j2)) \<and>
         ci ! 4 = ''s3://'' @ bucket_name urun @ ''/'' @ upload_key urun (valid ! i2) \<and>
         cj ! 4 = ci ! 4"
  proof (intro exI conjI)
    show "upload_command urun (valid ! i2) \<in># spawned (snd (upload_files urun file_list uw2))"
      by (rule upload_run_command [OF run i])
    show "upload_command urun (valid ! j2) \<in># spawned (snd (upload_files urun file_list uw2))"
      by (rule upload_run_command [OF run j])
  qed (simp_all only: upload_command_source upload_command_destination key)
qed

theorem destination_is_the_final_component_witness:
  "upload_key example_uploader ''docs/a.txt'' = ''backup/a.txt'' \<and>
   new_uploader example_upload_args example_upload_world = Inr example_uploader \<and>
   s3_prefix example_uploader = rstrip_slash ''backup//'' \<and>
   mkdir_error (example_task 0) = None \<and>
   download_commands example_downloader ''a/x.txt'' (example_task 0) =
     [[''aws'', ''s3'', ''cp'', ''s3://bk/a/x.txt'', ''downloads/x.txt'']] \<and>
   name (Path ''a/x.txt'') = name (Path ''b/x.txt'') \<and>
   truediv (output_dir example_downloader) (name (Path ''a/x.txt''))
     = truediv (output_dir example_downloader) (name (Path ''b/x.txt'')) \<and>
   name (Path ''docs/a.txt'') = name (Path ''img/a.txt'') \<and>
   upload_key example_uploader ''docs/a.txt'' = upload_key example_uploader ''img/a.txt'' \<and>
   download_run example_downloader [] None example_world example_keys \<and>
   (\<exists>ci cj.
      ci \<in># spawned (snd (download_files example_downloader [] None example_world)) \<and>
      cj \<in># spawned (snd (download_files example_downloader [] None example_world)) \<and>
      ci ! 3 = ''s3://bk/a/x.txt'' \<and> cj ! 3 = ''s3://bk/b/x.txt'' \<and>
      ci ! 4 = ''downloads/x.txt'' \<and> cj ! 4 = ci ! 4) \<and>
   upload_run example_uploader example_files example_upload_world example_valid_files \<and>
   (\<exists>ci cj.
      ci \<in># spawned (snd (upload_files example_uploader example_files example_upload_world)) \<and>
      cj \<in># spawned (snd (upload_files example_uploader example_files example_upload_world)) \<and>
      ci ! 3 = ''docs/a.txt'' \<and> cj ! 3 = ''img/a.txt'' \<and>
      ci ! 4 = ''s3://bk/backup/a.txt'' \<and> cj ! 4 = ci ! 4)"
proof -
  note path_defs = name_def Path_def splitroot_def split_on_def str_path_def truediv_def
  have nu: "new_uploader example_upload_args example_upload_world = Inr example_uploader"
    by (simp add: new_uploader_def example_upload_args_def example_upload_world_def aws_ok_def
        check_aws_cli_def subprocess_run_def rstrip_slash_def example_uploader_def)
  have m0: "mkdir_error (example_task 0) = None" "mkdir_error (download_task example_world 0) = None"
    "mkdir_error (download_task example_world 2) = None"
    by (simp_all add: example_task_def example_world_def)
  have nd: "name (Path ''a/x.txt'') = name (Path ''b/x.txt'')"
    and nup: "name (Path ''docs/a.txt'') = name (Path ''img/a.txt'')"
    by (simp_all add: path_defs)
  have k: "0 < length example_keys" "2 < length example_keys"
    "example_keys ! 0 = ''a/x.txt''" "example_keys ! 2 = ''b/x.txt''"
    "0 < length example_valid_files" "1 < length example_valid_files"
    "example_valid_files ! 0 = ''docs/a.txt''" "example_valid_files ! 1 = ''img/a.txt''"
    by (simp_all add: example_keys_def example_valid_files_def)
  have v: "''s3://'' @ bucket_name example_downloader @ ''/'' @ ''a/x.txt'' = ''s3://bk/a/x.txt''"
    "''s3://'' @ bucket_name example_downloader @ ''/'' @ ''b/x.txt'' = ''s3://bk/b/x.txt''"
    "str_path (truediv (output_dir example_downloader) (name (Path ''a/x.txt'')))
       = ''downloads/x.txt''"
    "str_path (Path ''docs/a.txt'') = ''docs/a.txt''"
    "str_path (Path ''img/a.txt'') = ''img/a.txt''"
    "''s3://'' @ bucket_name example_uploader @ ''/'' @ upload_key example_uploader ''docs/a.txt''
       = ''s3://bk/backup/a.txt''"
    by (simp_all add: example_downloader_def example_uploader_def upload_key_def path_defs)
  note T = destination_is_the_final_component [where self = example_uploader
      and f = "''docs/a.txt''" and args = example_upload_args and uw = example_upload_world
      and env = "example_task 0" and dself = example_downloader and k = "''a/x.txt''"
      and k' = "''b/x.txt''" and f' = "''img/a.txt''" and drun = example_downloader
      and pfx = "[]" and pat = None and w = example_world and keys = example_keys
      and i = 0 and j = 2 and urun = example_uploader and file_list = example_files
      and ?uw2.0 = example_upload_world and valid = example_valid_files and ?i2.0 = 0
      and ?j2.0 = 1, unfolded k(3,4,7,8)]
  have a: "upload_key example_uploader ''docs/a.txt'' = ''backup/a.txt''"
    using T by (simp add: example_uploader_def path_defs)
  have b: "s3_prefix example_uploader = rstrip_slash ''backup//''"
    using T nu by (simp add: example_upload_args_def)
  have c: "download_commands example_downloader ''a/x.txt'' (example_task 0) =
     [[''aws'', ''s3'', ''cp'', ''s3://bk/a/x.txt'', ''downloads/x.txt'']]"
    using T m0(1)
    by (simp add: build_aws_download_command_def example_downloader_def path_defs)
  have d: "truediv (output_dir example_downloader) (name (Path ''a/x.txt''))
     = truediv (output_dir example_downloader) (name (Path ''b/x.txt''))"
    using T nd by blast
  have e: "upload_key example_uploader ''docs/a.txt'' = upload_key example_uploader ''img/a.txt''"
    using T nup by blast
  have g: "\<exists>ci cj.
      ci \<in># spawned (snd (download_files example_downloader [] None example_world)) \<and>
      cj \<in># spawned (snd (download_files example_downloader [] None example_world)) \<and>
      ci ! 3 = ''s3://bk/a/x.txt'' \<and> cj ! 3 = ''s3://bk/b/x.txt'' \<and>
      ci ! 4 = ''downloads/x.txt'' \<and> cj ! 4 = ci ! 4"
    using T example_download_run k(1,2) m0(2,3) nd unfolding v by blast
  have h: "\<exists>ci cj.
      ci \<in># spawned (snd (upload_files example_uploader example_files example_upload_world)) \<and>
      cj \<in># spawned (snd (upload_files example_uploader example_files example_upload_world)) \<and>
      ci ! 3 = ''docs/a.txt'' \<and> cj ! 3 = ''img/a.txt'' \<and>
      ci ! 4 = ''s3://bk/backup/a.txt'' \<and> cj ! 4 = ci ! 4"
    using T example_upload_run k(5,6) nup unfolding v by blast
  show ?thesis
    using a nu b m0(1) c nd d nup e example_download_run g example_upload_run h
    by (intro conjI)
qed

section \<open>Parsing the listing\<close>

text \<open>
  C10. In \<^verbatim>\<open>_list_s3_files\<close> a line with fewer than four white-space-separated fields
  adds nothing and has no other effect. A line with at least four fields gives the key
  made of its fields from the fourth on, joined by single spaces (kept unless a pattern
  is given and does not match its final component). So for a listing line with date,
  time, size and key, the work item is the key with every run of white space replaced by
  one space: it has no two white space characters in a row, and it differs from the
  object's key whenever that key has two in a row.
\<close>

theorem listing_key_is_rejoined_fields:
  "(length (split_ws line) < 4 \<longrightarrow>
      parse_listing fm pat (line # lines) acc = parse_listing fm pat lines acc) \<and>
   (4 \<le> length (split_ws line) \<longrightarrow>
      parse_listing fm pat (line # lines) acc =
        parse_listing fm pat lines
          (if (case pat of None \<Rightarrow> True
               | Some p \<Rightarrow> p = [] \<or> fm (name (Path (join '' '' (drop 3 (split_ws line))))) p)
           then acc @ [join '' '' (drop 3 (split_ws line))] else acc)) \<and>
   (is_field d \<and> is_field t \<and> is_field sz \<and> split_ws key \<noteq> [] \<longrightarrow>
      parse_listing fm None [listing_line d t pad sz key] [] = [join '' '' (split_ws key)] \<and>
      \<not> consecutive_spaces (join '' '' (split_ws key)) \<and>
      (consecutive_spaces key \<longrightarrow> join '' '' (split_ws key) \<noteq> key))"
proof (intro conjI impI)
  assume "length (split_ws line) < 4"
  then show "parse_listing fm pat (line # lines) acc = parse_listing fm pat lines acc"
    by (simp add: Let_def)
next
  assume four: "4 \<le> length (split_ws line)"
  then have "split_ws line \<noteq> []" by auto
  then have "strip line \<noteq> []" by (rule split_ws_strip)
  with four show "parse_listing fm pat (line # lines) acc =
        parse_listing fm pat lines
          (if (case pat of None \<Rightarrow> True
               | Some p \<Rightarrow> p = [] \<or> fm (name (Path (join '' '' (drop 3 (split_ws line))))) p)
           then acc @ [join '' '' (drop 3 (split_ws line))] else acc)"
    by (simp add: Let_def split: option.splits)
next
  assume h: "is_field d \<and> is_field t \<and> is_field sz \<and> split_ws key \<noteq> []"
  then have w: "split_ws (listing_line d t pad sz key) = d # t # sz # split_ws key"
    by (simp add: split_ws_listing_line)
  then have "split_ws (listing_line d t pad sz key) \<noteq> []" by simp
  then have s: "strip (listing_line d t pad sz key) \<noteq> []" by (rule split_ws_strip)
  have l: "4 \<le> length (d # t # sz # split_ws key)"
    using h by (cases "split_ws key") simp_all
  show "parse_listing fm None [listing_line d t pad sz key] [] = [join '' '' (split_ws key)]"
    using s l by (simp add: w Let_def)
  show n: "\<not> consecutive_spaces (join '' '' (split_ws key))" by (rule rejoined_key)
  assume "consecutive_spaces key"
  with n show "join '' '' (split_ws key) \<noteq> key" by auto
qed

theorem listing_key_is_rejoined_fields_witness:
  "length (split_ws ''                           PRE logs/'') < 4 \<and>
   parse_listing (\<lambda>n p. True) None [''                           PRE logs/''] [] = [] \<and>
   4 \<le> length (split_ws ''2023-12-01 10:30:46         12 b/my  file.txt'') \<and>
   parse_listing (\<lambda>n p. True) None [''2023-12-01 10:30:46         12 b/my  file.txt''] []
     = [''b/my file.txt''] \<and>
   is_field ''2023-12-01'' \<and> is_field ''10:30:46'' \<and> is_field ''12'' \<and>
   split_ws ''b/my  file.txt'' \<noteq> [] \<and> consecutive_spaces ''b/my  file.txt'' \<and>
   listing_line ''2023-12-01'' ''10:30:46'' 8 ''12'' ''b/my  file.txt''
     = ''2023-12-01 10:30:46         12 b/my  file.txt'' \<and>
   parse_listing (\<lambda>n p. True) None
       [listing_line ''2023-12-01'' ''10:30:46'' 8 ''12'' ''b/my  file.txt''] []
     = [''b/my file.txt''] \<and>
   join '' '' (split_ws ''b/my  file.txt'') \<noteq> ''b/my  file.txt'' \<and>
   fst (list_s3_files example_downloader [] None example_world)
     = [''a/x.txt'', ''b/my file.txt'', ''b/x.txt'']"
proof -
  let ?fm = "\<lambda>(n :: string) (p :: string). True"
  let ?pre = "''                           PRE logs/''"
  let ?line = "''2023-12-01 10:30:46         12 b/my  file.txt''"
  let ?key = "''b/my  file.txt''"
  have a: "length (split_ws ?pre) < 4" by (simp add: split_ws_def isspace_def)
  have b: "4 \<le> length (split_ws ?line)" by (simp add: split_ws_def isspace_def)
  have j: "join '' '' (drop 3 (split_ws ?line)) = ''b/my file.txt''"
    by (simp add: split_ws_def isspace_def)
  have f: "is_field ''2023-12-01''" "is_field ''10:30:46''" "is_field ''12''"
    by (simp_all add: is_field_def isspace_def)
  have k: "split_ws ?key \<noteq> []" "join '' '' (split_ws ?key) = ''b/my file.txt''"
    by (simp_all add: split_ws_def isspace_def)
  have c: "consecutive_spaces ?key" by (simp add: isspace_def)
  have ll: "listing_line ''2023-12-01'' ''10:30:46'' 8 ''12'' ?key = ?line"
    by (simp add: listing_line_def eval_nat_numeral)
  have ex: "fst (list_s3_files example_downloader [] None example_world)
     = [''a/x.txt'', ''b/my file.txt'', ''b/x.txt'']"
    using example_download_run by (simp add: download_run_def example_keys_def)
  note T1 = listing_key_is_rejoined_fields [where line = ?pre and fm = ?fm and pat = None
      and lines = "[]" and acc = "[]" and d = "''2023-12-01''" and t = "''10:30:46''"
      and sz = "''12''" and key = ?key and pad = 8]
  note T2 = listing_key_is_rejoined_fields [where line = ?line and fm = ?fm and pat = None
      and lines = "[]" and acc = "[]" and d = "''2023-12-01''" and t = "''10:30:46''"
      and sz = "''12''" and key = ?key and pad = 8]
  have r1: "parse_listing ?fm None [?pre] [] = []"
    using T1 a by simp
  have r2: "parse_listing ?fm None [?line] [] = [''b/my file.txt'']"
    using T2 [THEN conjunct2, THEN conjunct1] b by (simp add: j)
  have r3: "parse_listing ?fm None
       [listing_line ''2023-12-01'' ''10:30:46'' 8 ''12'' ?key] [] = [''b/my file.txt'']"
    using T2 [THEN conjunct2, THEN conjunct2] f k by simp
  have r4: "join '' '' (split_ws ?key) \<noteq> ?key"
    using T2 [THEN conjunct2, THEN conjunct2] f k(1) c by blast
  show ?thesis
    using a r1 b r2 f k(1) c ll r3 r4 ex by (intro conjI)
qed

end
